theory Spec2Isabelle
  imports
    Main
    "HOL-Library.Word"
    "HOL-Library.Signed_Division"
    "HOL-Library.Mapping"
    "HOL-Library.AList_Mapping"
    "HOL-Library.Char_ord"
    "HOL-Library.List_Lexorder"
    "HOL-Library.Multiset"
begin

section \<open>Time values and durations of Go's time package\<close>

text \<open>
  A \<open>time.Time\<close> is modelled by its civil reading in its own location, the way a stored
  timestamp is written (RFC 3339): calendar date, clock, nanoseconds and the zone offset in
  seconds east of UTC. The methods \<open>Year()\<close>, \<open>Month()\<close>, \<open>Day()\<close>, \<open>Hour()\<close>,
  \<open>Minute()\<close> and \<open>Second()\<close> are the fields.
\<close>

record time =
  Year :: int
  Month :: int
  Day :: int
  Hour :: int
  Minute :: int
  Second :: int
  Nanosecond :: int
  Offset :: int

text \<open>The zero value \<open>time.Time{}\<close>: January 1, year 1, 00:00:00 UTC.\<close>

definition zeroTime :: time where
  "zeroTime = \<lparr>Year = 1, Month = 1, Day = 1, Hour = 0, Minute = 0, Second = 0,
     Nanosecond = 0, Offset = 0\<rparr>"

text \<open>Days from 1970-01-01 to a date of the proleptic Gregorian calendar.\<close>

definition daysFromCivil :: "int \<Rightarrow> int \<Rightarrow> int \<Rightarrow> int" where
  "daysFromCivil y m d =
     (let y' = (if m \<le> 2 then y - 1 else y);
          mp = (if 2 < m then m - 3 else m + 9)
      in 365 * y' + y' div 4 - y' div 100 + y' div 400 + (153 * mp + 2) div 5 + d - 1 - 719468)"

text \<open>The instant a time value denotes, in nanoseconds since 1970-01-01 00:00:00 UTC.\<close>

definition unixNanos :: "time \<Rightarrow> int" where
  "unixNanos t =
     (daysFromCivil (Year t) (Month t) (Day t) * 86400
        + Hour t * 3600 + Minute t * 60 + Second t - Offset t) * 1000000000 + Nanosecond t"

text \<open>
  A \<open>time.Duration\<close> is an \<open>int64\<close> count of nanoseconds: addition and subtraction wrap
  around, \<open>sint\<close> reads the value.
\<close>

type_synonym duration = "64 word"

definition Minute_d :: duration where
  "Minute_d = 60000000000"

definition Hour_d :: duration where
  "Hour_d = 3600000000000"

definition maxDuration :: duration where
  "maxDuration = 9223372036854775807"

definition minDuration :: duration where
  "minDuration = - 9223372036854775808"

text \<open>
  \<open>t.Sub(u)\<close>: the duration \<open>t - u\<close>; a difference that does not fit a Duration gives the
  largest or the smallest Duration. (Stored timestamps carry no monotonic clock reading, so
  the wall clock instants are subtracted.)
\<close>

definition Sub :: "time \<Rightarrow> time \<Rightarrow> duration" where
  "Sub t u =
     (let d = unixNanos t - unixNanos u
      in if 9223372036854775807 < d then maxDuration
         else if d < - 9223372036854775808 then minDuration
         else word_of_int d)"

text \<open>
  \<open>d.Truncate(m)\<close>: \<open>d\<close> rounded toward zero to a multiple of \<open>m\<close>
  (\<open>d - d % m\<close> with Go's truncated remainder); \<open>d\<close> itself when \<open>m \<le> 0\<close>.
\<close>

definition Truncate :: "duration \<Rightarrow> duration \<Rightarrow> duration" where
  "Truncate d m = (if sint m \<le> 0 then d else d - word_of_int (sint d smod sint m))"

section \<open>Entries\<close>

record entry =
  Timestamp :: time
  Type :: string

section \<open>calcWorktime\<close>

text \<open>
  The local variables of \<open>calcWorktime\<close>, and the lines it has written to standard output.
\<close>

record cw_state =
  working :: bool
  lastTs :: time
  worktime :: duration
  printed :: "string list"

definition cw_init :: cw_state where
  "cw_init = \<lparr>working = False, lastTs = zeroTime, worktime = 0, printed = []\<rparr>"

text \<open>One iteration of the loop over the entries: the \<open>switch e.Type\<close>, which has no default case.\<close>

definition cw_step :: "cw_state \<Rightarrow> entry \<Rightarrow> cw_state" where
  "cw_step st e =
     (if Type e = ''s'' then
        (if \<not> working st then st\<lparr>working := True, lastTs := Timestamp e\<rparr> else st)
      else if Type e = ''e'' then
        (if \<not> working st then st\<lparr>printed := printed st @ [''Ignoring invalid e entry'']\<rparr>
         else st\<lparr>working := False, worktime := worktime st + Sub (Timestamp e) (lastTs st)\<rparr>)
      else st)"

definition cw_loop :: "cw_state \<Rightarrow> entry list \<Rightarrow> cw_state" where
  "cw_loop st entries = foldl cw_step st entries"

text \<open>
  \<open>calcWorktime(entries, today)\<close>; \<open>now\<close> is what \<open>time.Now()\<close> returns when it is called.
  The result is the returned duration together with the lines printed.
\<close>

definition calcWorktime :: "time \<Rightarrow> entry list \<Rightarrow> bool \<Rightarrow> duration \<times> string list" where
  "calcWorktime now entries today =
     (let st = cw_loop cw_init entries
      in if working st then
           (if today then (worktime st + Sub now (lastTs st), printed st)
            else (0, printed st))
         else (worktime st, printed st))"

section \<open>isSameDay and todaysEntries\<close>

definition isSameDay :: "time \<Rightarrow> time \<Rightarrow> bool" where
  "isSameDay a b = (Day a = Day b \<and> Month a = Month b \<and> Year a = Year b)"

text \<open>\<open>today\<close> is the reading of \<open>time.Now()\<close> taken by \<open>todaysEntries\<close>.\<close>

definition todaysEntries :: "time \<Rightarrow> entry list \<Rightarrow> entry list" where
  "todaysEntries today entries = filter (\<lambda>e. isSameDay (Timestamp e) today) entries"

section \<open>Formatting a date\<close>

text \<open>
  \<open>t.Format("2006-01-02")\<close>: the year with at least four digits, the month and the day
  with at least two, each padded with zeros on the left and with a minus sign in front of a
  negative number, as the time package's \<open>appendInt\<close> writes them.
\<close>

definition digitChar :: "nat \<Rightarrow> char" where
  "digitChar d = ''0123456789'' ! d"

fun decimal :: "nat \<Rightarrow> string" where
  "decimal n = (if n < 10 then [digitChar n] else decimal (n div 10) @ [digitChar (n mod 10)])"

declare decimal.simps [simp del]

definition appendInt :: "int \<Rightarrow> nat \<Rightarrow> string" where
  "appendInt x width =
     (let ds = decimal (nat \<bar>x\<bar>)
      in (if x < 0 then ''-'' else []) @ replicate (width - length ds) CHR ''0'' @ ds)"

definition FormatDate :: "time \<Rightarrow> string" where
  "FormatDate t = appendInt (Year t) 4 @ ''-'' @ appendInt (Month t) 2 @ ''-'' @ appendInt (Day t) 2"

section \<open>calcWorktimeAll\<close>

text \<open>
  The first loop: \<open>dayEntries\<close> maps a formatted date to the entries of that date. Indexing
  a Go map at a missing key gives the zero value, here the empty slice.
\<close>

definition dayOf :: "(string, entry list) mapping \<Rightarrow> string \<Rightarrow> entry list" where
  "dayOf dayEntries d = (case Mapping.lookup dayEntries d of None \<Rightarrow> [] | Some day \<Rightarrow> day)"

definition addToDay :: "(string, entry list) mapping \<Rightarrow> entry \<Rightarrow> (string, entry list) mapping" where
  "addToDay dayEntries e =
     (let date = FormatDate (Timestamp e);
          day = (case Mapping.lookup dayEntries date of None \<Rightarrow> [] | Some day \<Rightarrow> day)
      in Mapping.update date (day @ [e]) dayEntries)"

definition dayBuckets :: "entry list \<Rightarrow> (string, entry list) mapping" where
  "dayBuckets entries = foldl addToDay Mapping.empty entries"

text \<open>
  The keys are collected in the map's iteration order and sorted with \<open>sort.Strings\<close>
  (bytewise lexicographic order); the keys of a map are distinct, so the sorted slice does
  not depend on the iteration order.
\<close>

definition sortedDays :: "(string, entry list) mapping \<Rightarrow> string list" where
  "sortedDays dayEntries = Mapping.ordered_keys dayEntries"

text \<open>
  What the report writes: the lines of \<open>calcWorktime\<close>, one line per day, the summary.
  A line carries the values handed to \<open>Printf\<close>. The counter \<open>dayCount\<close> is a Go
  \<open>int\<close> that counts keys of the map, so it stays below the length of the entries and is
  a natural number here; \<open>time.Duration(dayCount)\<close> is its value as a Duration.
\<close>

datatype line =
    Text string
  | NoEndEntry string
  | DayWorktime string duration
  | Summary duration duration duration

record report_state =
  sum_acc :: duration
  dayCount :: nat
  out :: "line list"

definition report_init :: report_state where
  "report_init = \<lparr>sum_acc = 0, dayCount = 0, out = []\<rparr>"

text \<open>One iteration of the second loop, for the day \<open>d\<close>.\<close>

definition report_step ::
    "time \<Rightarrow> (string, entry list) mapping \<Rightarrow> report_state \<Rightarrow> string \<Rightarrow> report_state" where
  "report_step now dayEntries st d =
     (let day = dayOf dayEntries d;
          r = calcWorktime now day False;
          wt = fst r;
          st1 = st\<lparr>out := out st @ map Text (snd r)\<rparr>
      in if wt = 0 then st1\<lparr>out := out st1 @ [NoEndEntry d]\<rparr>
         else st1\<lparr>out := out st1 @ [DayWorktime d (Truncate wt Minute_d)],
                  sum_acc := sum_acc st1 + wt,
                  dayCount := dayCount st1 + 1\<rparr>)"

definition report_loop :: "time \<Rightarrow> entry list \<Rightarrow> report_state" where
  "report_loop now entries =
     (let dayEntries = dayBuckets entries
      in foldl (report_step now dayEntries) report_init (sortedDays dayEntries))"

definition expectedTotal :: "report_state \<Rightarrow> duration" where
  "expectedTotal st = (Hour_d * 8) * of_nat (dayCount st)"

text \<open>\<open>calcWorktimeAll(entries)\<close>: everything it prints.\<close>

definition calcWorktimeAll :: "time \<Rightarrow> entry list \<Rightarrow> line list" where
  "calcWorktimeAll now entries =
     (let st = report_loop now entries;
          expected = expectedTotal st;
          diff = sum_acc st - expected
      in out st @ [Summary (Truncate expected Minute_d) (Truncate (sum_acc st) Minute_d)
                     (Truncate diff Minute_d)])"

section \<open>The commands that record an entry\<close>

text \<open>\<open>check(err)\<close> prints the error and leaves the process with status 1; the errors it can see:\<close>

datatype error = ParseError | MarshalError | WriteError

text \<open>
  \<open>time.Parse("15:04", value)\<close>. The hour is one or two digits below 24, the minute exactly
  two digits below 60, nothing may follow. The fields the layout does not mention are those of
  January 1 of year 0 in UTC; a failed parse returns the zero time with the error.
\<close>

definition isDigit :: "char \<Rightarrow> bool" where
  "isDigit c = (CHR ''0'' \<le> c \<and> c \<le> CHR ''9'')"

definition digitVal :: "char \<Rightarrow> int" where
  "digitVal c = int (of_char c) - 48"

definition getnum :: "string \<Rightarrow> bool \<Rightarrow> (int \<times> string) option" where
  "getnum s fixed =
     (case s of
        [] \<Rightarrow> None
      | c # r \<Rightarrow>
          if \<not> isDigit c then None
          else (case r of
                  [] \<Rightarrow> if fixed then None else Some (digitVal c, r)
                | c2 # r2 \<Rightarrow>
                    if \<not> isDigit c2 then (if fixed then None else Some (digitVal c, r))
                    else Some (digitVal c * 10 + digitVal c2, r2)))"

definition Parse_clock :: "string \<Rightarrow> time \<times> error option" where
  "Parse_clock v =
     (case getnum v False of
        None \<Rightarrow> (zeroTime, Some ParseError)
      | Some (h, v1) \<Rightarrow>
          if h < 0 \<or> 24 \<le> h then (zeroTime, Some ParseError)
          else (case v1 of
                  [] \<Rightarrow> (zeroTime, Some ParseError)
                | c # v2 \<Rightarrow>
                    if c \<noteq> CHR '':'' then (zeroTime, Some ParseError)
                    else (case getnum v2 True of
                            None \<Rightarrow> (zeroTime, Some ParseError)
                          | Some (mi, v3) \<Rightarrow>
                              if mi < 0 \<or> 60 \<le> mi then (zeroTime, Some ParseError)
                              else if v3 \<noteq> [] then (zeroTime, Some ParseError)
                              else (\<lparr>Year = 0, Month = 1, Day = 1, Hour = h, Minute = mi,
                                      Second = 0, Nanosecond = 0, Offset = 0\<rparr>, None))))"

text \<open>
  What one run of a command reads from outside: the arguments \<open>os.Args\<close>, the two readings
  of \<open>time.Now()\<close>, and whether \<open>json.Marshal\<close> and \<open>ioutil.WriteFile\<close> report an
  error. \<open>DateLocal year month day hour min sec nsec\<close> is
  \<open>time.Date(year, month, day, hour, min, sec, nsec, loc)\<close> for the location \<open>loc\<close> of
  the clock readings: the library normalises its arguments and resolves the wall clock time
  in the zone database of the machine (a time of day that the zone skips or repeats
  included), so the function is part of what the run is given and nothing is assumed of it.
\<close>

record world =
  Args :: "string list"
  Now1 :: time
  Now2 :: time
  DateLocal :: "int \<Rightarrow> int \<Rightarrow> int \<Rightarrow> int \<Rightarrow> int \<Rightarrow> int \<Rightarrow> int \<Rightarrow> time"
  MarshalFails :: bool
  WriteFails :: bool

text \<open>
  \<open>saveTs\<close>: \<open>Inr\<close> carries the list the file holds after a successful write; the file
  stands for the list it serialises.
\<close>

definition saveTs :: "world \<Rightarrow> entry list \<Rightarrow> error + entry list" where
  "saveTs w entries =
     (if MarshalFails w then Inl MarshalError
      else if WriteFails w then Inl WriteError
      else Inr entries)"

text \<open>
  The two commands. \<open>time.Date\<close> is evaluated before \<open>check(err)\<close>, on the zero time
  when the parse failed; \<open>check\<close> then ends the run before anything is saved. The result
  is what \<open>saveTs\<close> was given and wrote, or the error that ended the run; the line echoed
  for an explicit time is left out.
\<close>

definition addStartEntry :: "world \<Rightarrow> entry list \<Rightarrow> error + entry list" where
  "addStartEntry w entries =
     (let e = \<lparr>Timestamp = Now1 w, Type = ''s''\<rparr>
      in if 2 < length (Args w) then
           (let r = Parse_clock (Args w ! 2);
                t = fst r;
                today = Now2 w;
                ts = DateLocal w (Year today) (Month today) (Day today) (Hour t) (Minute t)
                       (Second t) 0
            in case snd r of
                 Some err \<Rightarrow> Inl err
               | None \<Rightarrow> saveTs w (entries @ [e\<lparr>Timestamp := ts\<rparr>]))
         else saveTs w (entries @ [e]))"

definition addEndEntry :: "world \<Rightarrow> entry list \<Rightarrow> error + entry list" where
  "addEndEntry w entries =
     (let e = \<lparr>Timestamp = Now1 w, Type = ''e''\<rparr>
      in if 2 < length (Args w) then
           (let r = Parse_clock (Args w ! 2);
                t = fst r;
                today = Now2 w;
                ts = DateLocal w (Year today) (Month today) (Day today) (Hour t) (Minute t)
                       (Second t) 0
            in case snd r of
                 Some err \<Rightarrow> Inl err
               | None \<Rightarrow> saveTs w (entries @ [e\<lparr>Timestamp := ts\<rparr>]))
         else saveTs w (entries @ [e]))"

section \<open>Notions used in the statements\<close>

text \<open>A sequence that strictly alternates Start, End, Start, End, ... and ends with an End.\<close>

fun alternating :: "entry list \<Rightarrow> bool" where
  "alternating [] = True"
| "alternating [s] = False"
| "alternating (s # e # rest) = (Type s = ''s'' \<and> Type e = ''e'' \<and> alternating rest)"

text \<open>
  The sum over the Start/End pairs of End.timestamp minus Start.timestamp: as a Duration,
  and as an integer number of nanoseconds.
\<close>

fun pairSum :: "entry list \<Rightarrow> duration" where
  "pairSum (s # e # rest) = Sub (Timestamp e) (Timestamp s) + pairSum rest"
| "pairSum [s] = 0"
| "pairSum [] = 0"

fun pairNanos :: "entry list \<Rightarrow> int" where
  "pairNanos (s # e # rest) = unixNanos (Timestamp e) - unixNanos (Timestamp s) + pairNanos rest"
| "pairNanos [s] = 0"
| "pairNanos [] = 0"

text \<open>
  A well-formed day: Start, End, Start, End, ..., optionally ending with an unmatched Start.
\<close>

fun wellFormed :: "entry list \<Rightarrow> bool" where
  "wellFormed [] = True"
| "wellFormed [s] = (Type s = ''s'')"
| "wellFormed (s # e # rest) = (Type s = ''s'' \<and> Type e = ''e'' \<and> wellFormed rest)"

text \<open>The ranges of the fields that a \<open>time.Time\<close> presents.\<close>

definition validTime :: "time \<Rightarrow> bool" where
  "validTime t =
     (1 \<le> Month t \<and> Month t \<le> 12 \<and> 1 \<le> Day t \<and> Day t \<le> 31 \<and>
      0 \<le> Hour t \<and> Hour t < 24 \<and> 0 \<le> Minute t \<and> Minute t < 60 \<and>
      0 \<le> Second t \<and> Second t < 60 \<and> 0 \<le> Nanosecond t \<and> Nanosecond t < 1000000000 \<and>
      - 86400 < Offset t \<and> Offset t < 86400)"

text \<open>Events of one day: valid time values that all fall on the date of the time \<open>t\<close>.\<close>

definition onDayOf :: "time \<Rightarrow> entry list \<Rightarrow> bool" where
  "onDayOf t es = list_all (\<lambda>e. validTime (Timestamp e) \<and> isSameDay (Timestamp e) t) es"

definition oneDay :: "entry list \<Rightarrow> bool" where
  "oneDay es = (case es of [] \<Rightarrow> True | e # _ \<Rightarrow> onDayOf (Timestamp e) es)"

text \<open>No End earlier than the Start it closes.\<close>

fun pairsOrdered :: "entry list \<Rightarrow> bool" where
  "pairsOrdered (s # e # rest) =
     (unixNanos (Timestamp s) \<le> unixNanos (Timestamp e) \<and> pairsOrdered rest)"
| "pairsOrdered [s] = True"
| "pairsOrdered [] = True"

text \<open>The trailing unmatched Start of a well-formed day, if it has one.\<close>

fun openStart :: "entry list \<Rightarrow> entry option" where
  "openStart (s # e # rest) = openStart rest"
| "openStart [s] = Some s"
| "openStart [] = None"

text \<open>The kinds of event the program writes.\<close>

definition knownKind :: "entry \<Rightarrow> bool" where
  "knownKind e = (Type e = ''s'' \<or> Type e = ''e'')"

text \<open>A four-digit year, as every stored (RFC 3339) timestamp has.\<close>

definition fourDigitYear :: "time \<Rightarrow> bool" where
  "fourDigitYear t = (0 \<le> Year t \<and> Year t \<le> 9999)"

text \<open>One calendar date before another.\<close>

definition dateBefore :: "time \<Rightarrow> time \<Rightarrow> bool" where
  "dateBefore a b =
     (Year a < Year b \<or> (Year a = Year b \<and>
        (Month a < Month b \<or> (Month a = Month b \<and> Day a < Day b))))"

text \<open>A time of day on a date, in UTC, for the examples.\<close>

definition at :: "int \<Rightarrow> int \<Rightarrow> int \<Rightarrow> int \<Rightarrow> int \<Rightarrow> int \<Rightarrow> time" where
  "at y m d h mi s =
     \<lparr>Year = y, Month = m, Day = d, Hour = h, Minute = mi, Second = s, Nanosecond = 0,
       Offset = 0\<rparr>"

definition Start :: "time \<Rightarrow> entry" where
  "Start t = \<lparr>Timestamp = t, Type = ''s''\<rparr>"

definition End :: "time \<Rightarrow> entry" where
  "End t = \<lparr>Timestamp = t, Type = ''e''\<rparr>"

text \<open>The example day of the specification: 09:00 to 12:00 and 13:00 to 17:00.\<close>

definition exampleDay :: "entry list" where
  "exampleDay =
     [Start (at 2024 1 1 9 0 0), End (at 2024 1 1 12 0 0),
      Start (at 2024 1 1 13 0 0), End (at 2024 1 1 17 0 0)]"

text \<open>The example day followed by a Start at 18:00 that is never closed.\<close>

definition openDay :: "entry list" where
  "openDay = exampleDay @ [Start (at 2024 1 1 18 0 0)]"

text \<open>An event of a kind the program does not write.\<close>

definition Other :: "time \<Rightarrow> entry" where
  "Other t = \<lparr>Timestamp = t, Type = ''x''\<rparr>"

text \<open>A well-formed day whose End was entered with an earlier time than its Start.\<close>

definition backdatedDay :: "entry list" where
  "backdatedDay = [Start (at 2024 1 1 12 0 0), End (at 2024 1 1 9 0 0)]"

text \<open>
  A well-formed day entered out of order: the afternoon session first, then the morning
  session with back-dated times. Each End is later than its Start.
\<close>

definition lateMorning :: "entry list" where
  "lateMorning =
     [Start (at 2024 1 1 13 0 0), End (at 2024 1 1 17 0 0),
      Start (at 2024 1 1 9 0 0), End (at 2024 1 1 12 0 0)]"

text \<open>
  A well-formed day of 106754 sessions, each entered as 00:00:00 to 23:59:59: together they
  are more than a Duration holds.
\<close>

definition longDay :: "entry list" where
  "longDay =
     concat (replicate 106754 [Start (at 2024 1 1 0 0 0), End (at 2024 1 1 23 59 59)])"

text \<open>
  \<open>time.Date\<close> on a machine whose zone is UTC, for arguments within their usual ranges:
  UTC skips and repeats no time of day, and such arguments need no normalising.
\<close>

definition DateUTC :: "int \<Rightarrow> int \<Rightarrow> int \<Rightarrow> int \<Rightarrow> int \<Rightarrow> int \<Rightarrow> int \<Rightarrow> time" where
  "DateUTC y m d h mi s ns =
     \<lparr>Year = y, Month = m, Day = d, Hour = h, Minute = mi, Second = s, Nanosecond = ns,
       Offset = 0\<rparr>"

text \<open>A run of the tool with an explicit time, at 18:30 on the example day, in UTC.\<close>

definition exampleWorld :: "string \<Rightarrow> world" where
  "exampleWorld cmd =
     \<lparr>Args = [''timesheet'', cmd, ''18:15''], Now1 = at 2024 1 1 18 30 0,
       Now2 = at 2024 1 1 18 30 1, DateLocal = DateUTC, MarshalFails = False,
       WriteFails = False\<rparr>"

section \<open>Notions used for the report\<close>

text \<open>The date an entry is filed under.\<close>

definition dateOf :: "entry \<Rightarrow> string" where
  "dateOf e = FormatDate (Timestamp e)"

text \<open>The date of a line that reports a day.\<close>

fun lineDate :: "line \<Rightarrow> string option" where
  "lineDate (NoEndEntry d) = Some d"
| "lineDate (DayWorktime d wt) = Some d"
| "lineDate (Text s) = None"
| "lineDate (Summary x a b) = None"

text \<open>The days a list of lines reports, in the order of the lines.\<close>

definition reportedDays :: "line list \<Rightarrow> string list" where
  "reportedDays ls = concat (map (\<lambda>l. case lineDate l of None \<Rightarrow> [] | Some d \<Rightarrow> [d]) ls)"

text \<open>The decimal digits of a number in a field of fixed width.\<close>

fun fixedDigits :: "nat \<Rightarrow> nat \<Rightarrow> string" where
  "fixedDigits 0 n = []"
| "fixedDigits (Suc k) n = fixedDigits k (n div 10) @ [digitChar (n mod 10)]"

text \<open>
  The worktime of the day \<open>d\<close> as the report computes it, from the bucket of \<open>d\<close> with the
  flag false, and the lines written for that day: the notices of \<open>calcWorktime\<close>, then the
  line of the day.
\<close>

definition dayWorktime :: "time \<Rightarrow> entry list \<Rightarrow> string \<Rightarrow> duration" where
  "dayWorktime now entries d = fst (calcWorktime now (dayOf (dayBuckets entries) d) False)"

definition dayReport :: "time \<Rightarrow> entry list \<Rightarrow> string \<Rightarrow> line list" where
  "dayReport now entries d =
     map Text (snd (calcWorktime now (dayOf (dayBuckets entries) d) False)) @
     [if dayWorktime now entries d = 0 then NoEndEntry d
      else DayWorktime d (Truncate (dayWorktime now entries d) Minute_d)]"

text \<open>The days of a report that count as complete.\<close>

definition completeDays :: "time \<Rightarrow> entry list \<Rightarrow> string list" where
  "completeDays now entries =
     filter (\<lambda>d. dayWorktime now entries d \<noteq> 0) (sortedDays (dayBuckets entries))"

text \<open>A day worked from 09:00:00 to 16:30:30.\<close>

definition secondsDay :: "entry list" where
  "secondsDay = [Start (at 2024 1 1 9 0 0), End (at 2024 1 1 16 30 30)]"

text \<open>
  Two days entered out of order: a complete day of eight hours on 2024-01-02, entered after
  the Start of 2024-01-03, a day that has no End.
\<close>

definition twoDays :: "entry list" where
  "twoDays =
     [Start (at 2024 1 3 9 0 0), Start (at 2024 1 2 9 0 0), End (at 2024 1 2 17 0 0)]"

section \<open>The loop of calcWorktime\<close>

lemma cw_loop_Nil: "cw_loop st [] = st"
  by (simp add: cw_loop_def)

lemma cw_loop_Cons: "cw_loop st (e # es) = cw_loop (cw_step st e) es"
  by (simp add: cw_loop_def)

lemma cw_loop_append: "cw_loop st (xs @ ys) = cw_loop (cw_loop st xs) ys"
  by (simp add: cw_loop_def)

lemma cw_init_idle: "\<not> working cw_init"
  by (simp add: cw_init_def)

lemma cw_loop_alternating:
  "alternating es \<Longrightarrow> \<not> working st \<Longrightarrow>
     \<not> working (cw_loop st es) \<and> worktime (cw_loop st es) = worktime st + pairSum es \<and>
     printed (cw_loop st es) = printed st"
proof (induction es arbitrary: st rule: alternating.induct)
  case 1
  then show ?case by (simp add: cw_loop_Nil)
next
  case (2 s)
  then show ?case by simp
next
  case (3 s e rest)
  let ?st2 = "cw_step (cw_step st s) e"
  from 3 have a: "\<not> working ?st2"
    and b: "worktime ?st2 = worktime st + Sub (Timestamp e) (Timestamp s)"
    and c: "printed ?st2 = printed st"
    by (simp_all add: cw_step_def)
  from 3 have d: "alternating rest" by simp
  have e: "cw_loop st (s # e # rest) = cw_loop ?st2 rest" by (simp add: cw_loop_Cons)
  show ?case using "3.IH"[OF d a] b c unfolding e by (simp add: add.assoc)
qed

section \<open>Differences of times of one day\<close>

lemma sameDay_span:
  assumes "validTime a" "validTime b" "isSameDay a b"
  shows "\<bar>unixNanos a - unixNanos b\<bar> < 3 * 86400 * 1000000000"
  using assms unfolding validTime_def isSameDay_def unixNanos_def by simp linarith

lemma Sub_exact:
  assumes "- 9223372036854775808 \<le> unixNanos a - unixNanos b"
    and "unixNanos a - unixNanos b \<le> 9223372036854775807"
  shows "Sub a b = word_of_int (unixNanos a - unixNanos b)"
  using assms by (simp add: Sub_def Let_def)

lemma sint_word_of_int_exact:
  "- 9223372036854775808 \<le> x \<Longrightarrow> x < 9223372036854775808 \<Longrightarrow>
     sint (word_of_int x :: 64 word) = x"
  by (simp add: int_word_sint)

lemma onDayOf_pairSum: "onDayOf t es \<Longrightarrow> pairSum es = word_of_int (pairNanos es)"
proof (induction es rule: pairSum.induct)
  case (1 s e rest)
  then have v: "validTime (Timestamp s)" "validTime (Timestamp e)"
    "isSameDay (Timestamp e) t" "isSameDay (Timestamp s) t" "onDayOf t rest"
    by (simp_all add: onDayOf_def)
  then have "isSameDay (Timestamp e) (Timestamp s)" by (simp add: isSameDay_def)
  from sameDay_span[OF v(2) v(1) this]
  have "Sub (Timestamp e) (Timestamp s) =
      word_of_int (unixNanos (Timestamp e) - unixNanos (Timestamp s))"
    by (intro Sub_exact) linarith+
  then show ?case using 1 v by simp
qed simp_all

section \<open>Evaluating the examples\<close>

lemmas entry_defs = Start_def End_def at_def
lemmas time_defs = Sub_def unixNanos_def daysFromCivil_def Let_def
lemmas cw_defs = calcWorktime_def cw_loop_def cw_step_def cw_init_def

lemma exampleDay_value: "calcWorktime now exampleDay today = (7 * Hour_d, [])"
  by (simp add: cw_defs exampleDay_def entry_defs time_defs Hour_d_def)

lemmas example_defs = exampleDay_def openDay_def Other_def

lemma openDay_loop:
  "cw_loop cw_init openDay =
     \<lparr>working = True, lastTs = at 2024 1 1 18 0 0, worktime = 7 * Hour_d, printed = []\<rparr>"
  by (simp add: cw_loop_def cw_step_def cw_init_def example_defs entry_defs time_defs Hour_d_def)

section \<open>Alternating sequences\<close>

text \<open>
  Claim C1. For every sequence that strictly alternates Start, End, Start, End, ... with no
  trailing open Start, \<open>calcWorktime\<close> returns, for either value of the flag \<open>today\<close>,
  the sum over the pairs of End.timestamp minus the preceding Start.timestamp, and prints
  nothing. The sum is the one of Durations (\<open>pairSum\<close>); for events of one day no difference
  saturates, and the result read as a signed number is the integer sum of the differences
  (\<open>pairNanos\<close>) whenever that sum fits a Duration. The four events 09:00 Start, 12:00 End,
  13:00 Start, 17:00 End of 2024-01-01 give 7 hours.
\<close>

theorem calcWorktime_alternating_sum:
  "(alternating es \<longrightarrow>
      calcWorktime now es today = (pairSum es, []) \<and>
      (oneDay es \<and> - 9223372036854775808 \<le> pairNanos es \<and> pairNanos es < 9223372036854775808 \<longrightarrow>
         sint (fst (calcWorktime now es today)) = pairNanos es)) \<and>
   calcWorktime now exampleDay today = (7 * Hour_d, [])"
proof (intro conjI impI)
  assume alt: "alternating es"
  from cw_loop_alternating[OF alt cw_init_idle]
  show r: "calcWorktime now es today = (pairSum es, [])"
    by (simp add: calcWorktime_def Let_def cw_init_def)
  assume h: "oneDay es \<and> - 9223372036854775808 \<le> pairNanos es \<and>
    pairNanos es < 9223372036854775808"
  then have "\<exists>t. onDayOf t es"
    by (auto simp: oneDay_def onDayOf_def split: list.splits)
  then obtain t where "onDayOf t es" ..
  then have "pairSum es = word_of_int (pairNanos es)" by (rule onDayOf_pairSum)
  with r h show "sint (fst (calcWorktime now es today)) = pairNanos es"
    by (simp add: sint_word_of_int_exact)
next
  show "calcWorktime now exampleDay today = (7 * Hour_d, [])" by (rule exampleDay_value)
qed

theorem calcWorktime_alternating_sum_witness:
  "alternating exampleDay \<and> oneDay exampleDay \<and> pairNanos exampleDay = 25200000000000 \<and>
   calcWorktime zeroTime exampleDay False = (pairSum exampleDay, []) \<and>
   calcWorktime zeroTime exampleDay True = (pairSum exampleDay, []) \<and>
   sint (fst (calcWorktime zeroTime exampleDay False)) = 7 * 3600 * 1000000000"
proof -
  have a: "alternating exampleDay" by (simp add: exampleDay_def entry_defs)
  have o: "oneDay exampleDay"
    by (simp add: exampleDay_def entry_defs oneDay_def onDayOf_def validTime_def isSameDay_def)
  have p: "pairNanos exampleDay = 25200000000000"
    by (simp add: exampleDay_def entry_defs unixNanos_def daysFromCivil_def)
  have b: "- 9223372036854775808 \<le> pairNanos exampleDay \<and>
      pairNanos exampleDay < 9223372036854775808"
    by (simp add: p)
  note T = calcWorktime_alternating_sum [of exampleDay zeroTime False]
  note U = calcWorktime_alternating_sum [of exampleDay zeroTime True]
  from T a have 1: "calcWorktime zeroTime exampleDay False = (pairSum exampleDay, [])" by blast
  from U a have 2: "calcWorktime zeroTime exampleDay True = (pairSum exampleDay, [])" by blast
  from T a o b have "sint (fst (calcWorktime zeroTime exampleDay False)) = pairNanos exampleDay"
    by blast
  then have 3: "sint (fst (calcWorktime zeroTime exampleDay False)) = 7 * 3600 * 1000000000"
    by (simp add: p)
  from a o p 1 2 3 show ?thesis by blast
qed

section \<open>What the loop prints\<close>

text \<open>
  The lines printed never influence the other variables: a run from a state with other lines
  printed so far differs in the printed lines only, and appends the same lines.
\<close>

lemma cw_step_printed:
  "\<exists>ps. printed (cw_step st e) = printed st @ ps \<and>
     (\<forall>p. cw_step (st\<lparr>printed := p\<rparr>) e = (cw_step st e)\<lparr>printed := p @ ps\<rparr>)"
  by (simp add: cw_step_def)

lemma cw_loop_printed:
  "\<exists>ps. printed (cw_loop st es) = printed st @ ps \<and>
     (\<forall>p. cw_loop (st\<lparr>printed := p\<rparr>) es = (cw_loop st es)\<lparr>printed := p @ ps\<rparr>)"
proof (induction es arbitrary: st)
  case Nil
  show ?case by (simp add: cw_loop_Nil)
next
  case (Cons e es)
  from cw_step_printed[of st e] obtain p1 where
    a: "printed (cw_step st e) = printed st @ p1"
    and b: "\<And>p. cw_step (st\<lparr>printed := p\<rparr>) e = (cw_step st e)\<lparr>printed := p @ p1\<rparr>"
    by blast
  from Cons.IH[of "cw_step st e"] obtain p2 where
    c: "printed (cw_loop (cw_step st e) es) = printed (cw_step st e) @ p2"
    and d: "\<And>p. cw_loop ((cw_step st e)\<lparr>printed := p\<rparr>) es = (cw_loop (cw_step st e) es)\<lparr>printed := p @ p2\<rparr>"
    by blast
  show ?case
    by (rule exI[of _ "p1 @ p2"]) (simp add: cw_loop_Cons a b c d)
qed

section \<open>A trailing open session\<close>

text \<open>
  Claim C2. When the loop ends with \<open>working\<close> still set: with \<open>today\<close> true the
  result is the accumulated duration plus \<open>now - lastTs\<close>, with \<open>today\<close> false it is
  zero, whatever pairs were completed before. For an alternating sequence followed by one more
  Start, the accumulated duration is the pair sum and \<open>lastTs\<close> is the time of that Start.
\<close>

theorem calcWorktime_open_session:
  "(working (cw_loop cw_init es) \<longrightarrow>
      fst (calcWorktime now es True) =
        worktime (cw_loop cw_init es) + Sub now (lastTs (cw_loop cw_init es)) \<and>
      fst (calcWorktime now es False) = 0) \<and>
   (alternating pre \<and> Type s = ''s'' \<longrightarrow>
      working (cw_loop cw_init (pre @ [s])) \<and>
      fst (calcWorktime now (pre @ [s]) True) = pairSum pre + Sub now (Timestamp s) \<and>
      fst (calcWorktime now (pre @ [s]) False) = 0)"
proof (intro conjI impI)
  assume w: "working (cw_loop cw_init es)"
  then show "fst (calcWorktime now es True) =
      worktime (cw_loop cw_init es) + Sub now (lastTs (cw_loop cw_init es))"
    by (simp add: calcWorktime_def Let_def)
  from w show "fst (calcWorktime now es False) = 0"
    by (simp add: calcWorktime_def Let_def)
next
  assume h: "alternating pre \<and> Type s = ''s''"
  let ?st = "cw_loop cw_init pre"
  from h cw_loop_alternating[OF _ cw_init_idle, of pre]
  have p: "\<not> working ?st" "worktime ?st = pairSum pre"
    by (simp_all add: cw_init_def)
  have l: "cw_loop cw_init (pre @ [s]) = ?st\<lparr>working := True, lastTs := Timestamp s\<rparr>"
    using h p by (simp add: cw_loop_append cw_loop_Cons cw_loop_Nil cw_step_def)
  show "working (cw_loop cw_init (pre @ [s]))" by (simp add: l)
  show "fst (calcWorktime now (pre @ [s]) True) = pairSum pre + Sub now (Timestamp s)"
    by (simp add: calcWorktime_def Let_def l p)
  show "fst (calcWorktime now (pre @ [s]) False) = 0"
    by (simp add: calcWorktime_def Let_def l)
qed

theorem calcWorktime_open_session_witness:
  "working (cw_loop cw_init openDay) \<and> alternating exampleDay \<and>
   Type (Start (at 2024 1 1 18 0 0)) = ''s'' \<and>
   fst (calcWorktime (at 2024 1 1 18 30 0) openDay True) = 7 * Hour_d + 30 * Minute_d \<and>
   fst (calcWorktime (at 2024 1 1 18 30 0) openDay False) = 0 \<and>
   fst (calcWorktime (at 2024 1 1 18 30 0) (exampleDay @ [Start (at 2024 1 1 18 0 0)]) True) =
     pairSum exampleDay + Sub (at 2024 1 1 18 30 0) (at 2024 1 1 18 0 0)"
proof -
  have w: "working (cw_loop cw_init openDay)" by (simp add: openDay_loop)
  have a: "alternating exampleDay" by (simp add: exampleDay_def entry_defs)
  have t: "Type (Start (at 2024 1 1 18 0 0)) = ''s''" by (simp add: Start_def)
  have s: "Sub (at 2024 1 1 18 30 0) (at 2024 1 1 18 0 0) = 30 * Minute_d"
    by (simp add: entry_defs time_defs Minute_d_def)
  note T = calcWorktime_open_session [where es = openDay and now = "at 2024 1 1 18 30 0"
      and pre = exampleDay and s = "Start (at 2024 1 1 18 0 0)"]
  from T w have 1: "fst (calcWorktime (at 2024 1 1 18 30 0) openDay True) =
      worktime (cw_loop cw_init openDay) + Sub (at 2024 1 1 18 30 0) (lastTs (cw_loop cw_init openDay))"
    and 2: "fst (calcWorktime (at 2024 1 1 18 30 0) openDay False) = 0"
    by blast+
  from 1 have 3: "fst (calcWorktime (at 2024 1 1 18 30 0) openDay True) = 7 * Hour_d + 30 * Minute_d"
    by (simp add: openDay_loop s)
  from T a t have 4: "fst (calcWorktime (at 2024 1 1 18 30 0) (exampleDay @ [Start (at 2024 1 1 18 0 0)]) True) =
     pairSum exampleDay + Sub (at 2024 1 1 18 30 0) (Timestamp (Start (at 2024 1 1 18 0 0)))"
    by blast
  then have 5: "fst (calcWorktime (at 2024 1 1 18 30 0) (exampleDay @ [Start (at 2024 1 1 18 0 0)]) True) =
     pairSum exampleDay + Sub (at 2024 1 1 18 30 0) (at 2024 1 1 18 0 0)"
    by (simp add: Start_def)
  from w a t 2 3 5 show ?thesis by blast
qed

section \<open>An End without an open session\<close>

text \<open>
  Claim C5. An End met while not working changes none of \<open>working\<close>, \<open>lastTs\<close> and
  \<open>worktime\<close>; the notice is printed, the loop goes on with the remaining events, and
  the duration returned is the one of the sequence without that End. The lines printed are
  those of the sequence without it, with the notice put after the lines of the events before.
  The function has no failing branch.
\<close>

theorem calcWorktime_orphan_end:
  "Type e = ''e'' \<and> \<not> working (cw_loop cw_init pre) \<longrightarrow>
     cw_step (cw_loop cw_init pre) e =
       (cw_loop cw_init pre)\<lparr>printed := printed (cw_loop cw_init pre) @ [''Ignoring invalid e entry'']\<rparr> \<and>
     cw_loop cw_init (pre @ e # post) = cw_loop (cw_step (cw_loop cw_init pre) e) post \<and>
     fst (calcWorktime now (pre @ e # post) today) = fst (calcWorktime now (pre @ post) today) \<and>
     (\<exists>ps. snd (calcWorktime now (pre @ post) today) = printed (cw_loop cw_init pre) @ ps \<and>
        snd (calcWorktime now (pre @ e # post) today) =
          printed (cw_loop cw_init pre) @ ''Ignoring invalid e entry'' # ps)"
proof (intro impI)
  assume h: "Type e = ''e'' \<and> \<not> working (cw_loop cw_init pre)"
  let ?st = "cw_loop cw_init pre"
  let ?n = "''Ignoring invalid e entry''"
  from h have s: "cw_step ?st e = ?st\<lparr>printed := printed ?st @ [?n]\<rparr>"
    by (simp add: cw_step_def)
  have l: "cw_loop cw_init (pre @ e # post) = cw_loop (cw_step ?st e) post"
    by (simp add: cw_loop_append cw_loop_Cons)
  from cw_loop_printed[of ?st post] obtain ps where
    a: "printed (cw_loop ?st post) = printed ?st @ ps"
    and b: "\<And>p. cw_loop (?st\<lparr>printed := p\<rparr>) post = (cw_loop ?st post)\<lparr>printed := p @ ps\<rparr>"
    by blast
  have l2: "cw_loop cw_init (pre @ e # post) = (cw_loop cw_init (pre @ post))\<lparr>printed := printed ?st @ ?n # ps\<rparr>"
  proof -
    have "cw_loop cw_init (pre @ e # post) = cw_loop (?st\<lparr>printed := printed ?st @ [?n]\<rparr>) post"
      by (simp only: l s)
    also have "\<dots> = (cw_loop ?st post)\<lparr>printed := (printed ?st @ [?n]) @ ps\<rparr>"
      by (rule b)
    finally show ?thesis by (simp add: cw_loop_append)
  qed
  have v: "fst (calcWorktime now (pre @ e # post) today) = fst (calcWorktime now (pre @ post) today)"
    by (simp add: calcWorktime_def Let_def l2)
  have o1: "snd (calcWorktime now (pre @ post) today) = printed ?st @ ps"
    by (simp add: calcWorktime_def Let_def cw_loop_append a)
  have o2: "snd (calcWorktime now (pre @ e # post) today) = printed ?st @ ?n # ps"
    by (simp add: calcWorktime_def Let_def l2)
  from s l v o1 o2 show "cw_step ?st e = ?st\<lparr>printed := printed ?st @ [?n]\<rparr> \<and>
     cw_loop cw_init (pre @ e # post) = cw_loop (cw_step ?st e) post \<and>
     fst (calcWorktime now (pre @ e # post) today) = fst (calcWorktime now (pre @ post) today) \<and>
     (\<exists>ps. snd (calcWorktime now (pre @ post) today) = printed ?st @ ps \<and>
        snd (calcWorktime now (pre @ e # post) today) = printed ?st @ ?n # ps)"
    by blast
qed

theorem calcWorktime_orphan_end_witness:
  "Type (End (at 2024 1 1 8 0 0)) = ''e'' \<and> \<not> working (cw_loop cw_init []) \<and>
   fst (calcWorktime zeroTime ([] @ End (at 2024 1 1 8 0 0) # exampleDay) False) = 7 * Hour_d \<and>
   printed (cw_step (cw_loop cw_init []) (End (at 2024 1 1 8 0 0))) = [''Ignoring invalid e entry'']"
proof -
  have t: "Type (End (at 2024 1 1 8 0 0)) = ''e''" by (simp add: End_def)
  have w: "\<not> working (cw_loop cw_init [])" by (simp add: cw_loop_Nil cw_init_def)
  note T = calcWorktime_orphan_end [where e = "End (at 2024 1 1 8 0 0)" and pre = "[]"
      and post = exampleDay and now = zeroTime and today = False]
  from T t w have 1: "fst (calcWorktime zeroTime ([] @ End (at 2024 1 1 8 0 0) # exampleDay) False) =
      fst (calcWorktime zeroTime ([] @ exampleDay) False)"
    and 2: "cw_step (cw_loop cw_init []) (End (at 2024 1 1 8 0 0)) =
       (cw_loop cw_init [])\<lparr>printed := printed (cw_loop cw_init []) @ [''Ignoring invalid e entry'']\<rparr>"
    by blast+
  from 1 have 3: "fst (calcWorktime zeroTime ([] @ End (at 2024 1 1 8 0 0) # exampleDay) False) = 7 * Hour_d"
    by (simp add: exampleDay_value)
  from 2 have 4: "printed (cw_step (cw_loop cw_init []) (End (at 2024 1 1 8 0 0))) = [''Ignoring invalid e entry'']"
    by (simp add: cw_loop_Nil cw_init_def)
  from t w 3 4 show ?thesis by blast
qed

section \<open>A Start during an open session\<close>

text \<open>
  Claim C6. A Start met while working leaves the state as it is, so \<open>lastTs\<close> stays the
  time of the Start that opened the session, and the result (duration and printed lines) is
  that of the sequence with this Start removed.
\<close>

theorem calcWorktime_duplicate_start:
  "Type e = ''s'' \<and> working (cw_loop cw_init pre) \<longrightarrow>
     cw_step (cw_loop cw_init pre) e = cw_loop cw_init pre \<and>
     lastTs (cw_loop cw_init (pre @ [e])) = lastTs (cw_loop cw_init pre) \<and>
     calcWorktime now (pre @ e # post) today = calcWorktime now (pre @ post) today"
proof (intro impI)
  assume h: "Type e = ''s'' \<and> working (cw_loop cw_init pre)"
  then have s: "cw_step (cw_loop cw_init pre) e = cw_loop cw_init pre"
    by (simp add: cw_step_def)
  then have l: "cw_loop cw_init (pre @ e # post) = cw_loop cw_init (pre @ post)"
    by (simp add: cw_loop_append cw_loop_Cons)
  from s have t: "lastTs (cw_loop cw_init (pre @ [e])) = lastTs (cw_loop cw_init pre)"
    by (simp add: cw_loop_append cw_loop_Cons cw_loop_Nil)
  from s t l show "cw_step (cw_loop cw_init pre) e = cw_loop cw_init pre \<and>
     lastTs (cw_loop cw_init (pre @ [e])) = lastTs (cw_loop cw_init pre) \<and>
     calcWorktime now (pre @ e # post) today = calcWorktime now (pre @ post) today"
    by (simp add: calcWorktime_def)
qed

theorem calcWorktime_duplicate_start_witness:
  "Type (Start (at 2024 1 1 10 0 0)) = ''s'' \<and> working (cw_loop cw_init [Start (at 2024 1 1 9 0 0)]) \<and>
   calcWorktime zeroTime ([Start (at 2024 1 1 9 0 0)] @ Start (at 2024 1 1 10 0 0) # [End (at 2024 1 1 12 0 0)]) False =
     (3 * Hour_d, []) \<and>
   lastTs (cw_loop cw_init ([Start (at 2024 1 1 9 0 0)] @ [Start (at 2024 1 1 10 0 0)])) = at 2024 1 1 9 0 0"
proof -
  have t: "Type (Start (at 2024 1 1 10 0 0)) = ''s''" by (simp add: Start_def)
  have w: "working (cw_loop cw_init [Start (at 2024 1 1 9 0 0)])"
    by (simp add: cw_loop_def cw_step_def cw_init_def Start_def)
  note T = calcWorktime_duplicate_start [where e = "Start (at 2024 1 1 10 0 0)"
      and pre = "[Start (at 2024 1 1 9 0 0)]" and post = "[End (at 2024 1 1 12 0 0)]"
      and now = zeroTime and today = False]
  from T t w have 1: "calcWorktime zeroTime ([Start (at 2024 1 1 9 0 0)] @ Start (at 2024 1 1 10 0 0) # [End (at 2024 1 1 12 0 0)]) False =
      calcWorktime zeroTime ([Start (at 2024 1 1 9 0 0)] @ [End (at 2024 1 1 12 0 0)]) False"
    and 2: "lastTs (cw_loop cw_init ([Start (at 2024 1 1 9 0 0)] @ [Start (at 2024 1 1 10 0 0)])) =
      lastTs (cw_loop cw_init [Start (at 2024 1 1 9 0 0)])"
    by blast+
  have 3: "calcWorktime zeroTime ([Start (at 2024 1 1 9 0 0)] @ [End (at 2024 1 1 12 0 0)]) False = (3 * Hour_d, [])"
    by (simp add: cw_defs entry_defs time_defs Hour_d_def)
  have 4: "lastTs (cw_loop cw_init [Start (at 2024 1 1 9 0 0)]) = at 2024 1 1 9 0 0"
    by (simp add: cw_loop_def cw_step_def cw_init_def Start_def)
  from t w 1 2 3 4 show ?thesis by simp
qed

section \<open>Events of another kind\<close>

lemma cw_step_unknown: "\<not> knownKind e \<Longrightarrow> cw_step st e = st"
  by (simp add: knownKind_def cw_step_def)

lemma cw_loop_filter_known: "cw_loop st (filter knownKind es) = cw_loop st es"
  by (induction es arbitrary: st) (simp_all add: cw_loop_Cons cw_loop_Nil cw_step_unknown)

text \<open>
  Claim C9. An event whose kind is neither \<open>"s"\<close> nor \<open>"e"\<close> changes nothing in the
  state, the printed lines included; the result (duration and printed lines) is that of the
  sequence with all such events removed.
\<close>

theorem calcWorktime_unknown_kind:
  "(\<not> knownKind e \<longrightarrow> cw_step st e = st) \<and>
   calcWorktime now es today = calcWorktime now (filter knownKind es) today"
  by (simp add: cw_step_unknown calcWorktime_def cw_loop_filter_known)

theorem calcWorktime_unknown_kind_witness:
  "\<not> knownKind (Other (at 2024 1 1 10 0 0)) \<and>
   cw_step cw_init (Other (at 2024 1 1 10 0 0)) = cw_init \<and>
   calcWorktime zeroTime [Start (at 2024 1 1 9 0 0), Other (at 2024 1 1 10 0 0), End (at 2024 1 1 12 0 0)] False =
     (3 * Hour_d, [])"
proof -
  have k: "\<not> knownKind (Other (at 2024 1 1 10 0 0))" by (simp add: knownKind_def Other_def)
  note T = calcWorktime_unknown_kind [where e = "Other (at 2024 1 1 10 0 0)" and st = cw_init
      and now = zeroTime and today = False
      and es = "[Start (at 2024 1 1 9 0 0), Other (at 2024 1 1 10 0 0), End (at 2024 1 1 12 0 0)]"]
  from T k have 1: "cw_step cw_init (Other (at 2024 1 1 10 0 0)) = cw_init" by blast
  have f: "filter knownKind [Start (at 2024 1 1 9 0 0), Other (at 2024 1 1 10 0 0), End (at 2024 1 1 12 0 0)] =
      [Start (at 2024 1 1 9 0 0), End (at 2024 1 1 12 0 0)]"
    by (simp add: knownKind_def Other_def Start_def End_def)
  have v: "calcWorktime zeroTime [Start (at 2024 1 1 9 0 0), End (at 2024 1 1 12 0 0)] False = (3 * Hour_d, [])"
    by (simp add: cw_defs entry_defs time_defs Hour_d_def)
  from T have "calcWorktime zeroTime [Start (at 2024 1 1 9 0 0), Other (at 2024 1 1 10 0 0), End (at 2024 1 1 12 0 0)] False =
     calcWorktime zeroTime (filter knownKind [Start (at 2024 1 1 9 0 0), Other (at 2024 1 1 10 0 0), End (at 2024 1 1 12 0 0)]) False"
    by blast
  then have 2: "calcWorktime zeroTime [Start (at 2024 1 1 9 0 0), Other (at 2024 1 1 10 0 0), End (at 2024 1 1 12 0 0)] False =
     (3 * Hour_d, [])"
    by (simp only: f v)
  from k 1 2 show ?thesis by blast
qed

section \<open>The clock\<close>

text \<open>
  Claim C10. With \<open>today\<close> false the result does not depend on the current time: two
  evaluations of the same sequence at different times agree. The clock matters only when
  \<open>today\<close> is true and the loop ends with a session open.
\<close>

theorem calcWorktime_clock_independent:
  "calcWorktime now es False = calcWorktime now' es False \<and>
   (\<not> (today \<and> working (cw_loop cw_init es)) \<longrightarrow>
      calcWorktime now es today = calcWorktime now' es today)"
  by (simp add: calcWorktime_def Let_def)

theorem calcWorktime_clock_independent_witness:
  "at 2024 1 1 19 0 0 \<noteq> at 2030 6 1 0 0 0 \<and>
   calcWorktime (at 2024 1 1 19 0 0) openDay False = calcWorktime (at 2030 6 1 0 0 0) openDay False \<and>
   \<not> (True \<and> working (cw_loop cw_init exampleDay)) \<and>
   calcWorktime (at 2024 1 1 19 0 0) exampleDay True = calcWorktime (at 2030 6 1 0 0 0) exampleDay True"
proof -
  have d: "at 2024 1 1 19 0 0 \<noteq> at 2030 6 1 0 0 0" by (simp add: at_def)
  have w: "\<not> (True \<and> working (cw_loop cw_init exampleDay))"
    by (simp add: cw_loop_def cw_step_def cw_init_def exampleDay_def entry_defs)
  note T = calcWorktime_clock_independent [where now = "at 2024 1 1 19 0 0" and es = openDay
      and now' = "at 2030 6 1 0 0 0"]
  note U = calcWorktime_clock_independent [where now = "at 2024 1 1 19 0 0" and es = exampleDay
      and now' = "at 2030 6 1 0 0 0" and today = True]
  from T have 1: "calcWorktime (at 2024 1 1 19 0 0) openDay False = calcWorktime (at 2030 6 1 0 0 0) openDay False"
    by blast
  from U w have 2: "calcWorktime (at 2024 1 1 19 0 0) exampleDay True = calcWorktime (at 2030 6 1 0 0 0) exampleDay True"
    by blast
  from d w 1 2 show ?thesis by blast
qed

section \<open>The sign of the result\<close>

lemma sint_add_exact:
  fixes w :: duration
  assumes "- 9223372036854775808 \<le> sint w + d" "sint w + d < 9223372036854775808"
  shows "sint (w + word_of_int d) = sint w + d"
proof -
  have "w + word_of_int d = word_of_int (sint w + d)" by simp
  then show ?thesis using assms by (simp only: sint_word_of_int_exact)
qed

lemma cw_loop_wellFormed:
  "wellFormed es \<Longrightarrow> \<not> working st \<Longrightarrow>
     worktime (cw_loop st es) = worktime st + pairSum es \<and>
     (case openStart es of
        None \<Rightarrow> \<not> working (cw_loop st es)
      | Some s \<Rightarrow> working (cw_loop st es) \<and> lastTs (cw_loop st es) = Timestamp s)"
proof (induction es arbitrary: st rule: wellFormed.induct)
  case 1
  then show ?case by (simp add: cw_loop_Nil)
next
  case (2 s)
  then show ?case by (simp add: cw_loop_Cons cw_loop_Nil cw_step_def)
next
  case (3 s e rest)
  let ?st2 = "cw_step (cw_step st s) e"
  from 3 have a: "\<not> working ?st2"
    and b: "worktime ?st2 = worktime st + Sub (Timestamp e) (Timestamp s)"
    by (simp_all add: cw_step_def)
  from 3 have d: "wellFormed rest" by simp
  have e: "cw_loop st (s # e # rest) = cw_loop ?st2 rest" by (simp add: cw_loop_Cons)
  show ?case using "3.IH"[OF d a] b unfolding e by (simp add: add.assoc)
qed

lemma pairNanos_nonneg: "pairsOrdered es \<Longrightarrow> 0 \<le> pairNanos es"
  by (induction es rule: pairNanos.induct) simp_all

lemma pairSum_exact:
  "pairsOrdered es \<Longrightarrow> pairNanos es < 9223372036854775808 \<Longrightarrow>
     pairSum es = word_of_int (pairNanos es)"
proof (induction es rule: pairSum.induct)
  case (1 s e rest)
  let ?d = "unixNanos (Timestamp e) - unixNanos (Timestamp s)"
  from 1 have o: "0 \<le> ?d" "pairsOrdered rest" by simp_all
  from pairNanos_nonneg[OF o(2)] have r: "0 \<le> pairNanos rest" .
  from 1 have t: "?d + pairNanos rest < 9223372036854775808" by simp
  from o r t have "Sub (Timestamp e) (Timestamp s) = word_of_int ?d"
    by (intro Sub_exact) linarith+
  moreover from o r t have "pairNanos rest < 9223372036854775808" by linarith
  with o "1.IH" have "pairSum rest = word_of_int (pairNanos rest)" by simp
  ultimately show ?case by simp
qed simp_all

text \<open>
  Claim C4, as the code has it. A well-formed sequence may hold an End with an earlier time
  than its Start (an entry can be back-dated), and then the result is negative: the
  sequence 12:00 Start, 09:00 End of one day gives minus three hours.
\<close>

theorem calcWorktime_backdated_negative:
  "wellFormed backdatedDay \<and> oneDay backdatedDay \<and>
   sint (fst (calcWorktime zeroTime backdatedDay False)) = - 10800000000000 \<and>
   sint (fst (calcWorktime zeroTime backdatedDay True)) = - 10800000000000 \<and>
   \<not> 0 \<le> sint (fst (calcWorktime zeroTime backdatedDay False))"
  by (simp add: backdatedDay_def entry_defs oneDay_def onDayOf_def validTime_def isSameDay_def
      cw_defs time_defs)

text \<open>
  Two more well-formed days with a negative result: a session still open whose Start is
  later than the current time, with the flag true; and sessions that each end after they
  start but are together longer than a Duration holds, so that the sum wraps around.
\<close>

lemma open_Start_after_clock:
  "wellFormed [Start (at 2024 1 1 12 0 0)] \<and> oneDay [Start (at 2024 1 1 12 0 0)] \<and>
   sint (fst (calcWorktime (at 2024 1 1 9 0 0) [Start (at 2024 1 1 12 0 0)] True)) =
     - 10800000000000"
  by (simp add: entry_defs oneDay_def onDayOf_def validTime_def isSameDay_def cw_defs time_defs)

lemma alternating_replicate:
  "Type s = ''s'' \<Longrightarrow> Type e = ''e'' \<Longrightarrow> alternating (concat (replicate n [s, e]))"
  by (induction n) simp_all

lemma alternating_wellFormed: "alternating es \<Longrightarrow> wellFormed es"
  by (induction es rule: alternating.induct) simp_all

lemma pairSum_replicate:
  "pairSum (concat (replicate n [s, e])) = of_nat n * Sub (Timestamp e) (Timestamp s)"
  by (induction n) (simp_all add: algebra_simps)

lemma pairsOrdered_replicate:
  "unixNanos (Timestamp s) \<le> unixNanos (Timestamp e) \<Longrightarrow>
     pairsOrdered (concat (replicate n [s, e]))"
  by (induction n) simp_all

lemma onDayOf_replicate:
  "onDayOf t [s, e] \<Longrightarrow> onDayOf t (concat (replicate n [s, e]))"
  by (induction n) (simp_all add: onDayOf_def)

lemma onDayOf_oneDay: "es = e # rest \<Longrightarrow> onDayOf (Timestamp e) es \<Longrightarrow> oneDay es"
  by (simp add: oneDay_def)

lemma longDay_unfold:
  "longDay = Start (at 2024 1 1 0 0 0) # End (at 2024 1 1 23 59 59) #
     concat (replicate 106753 [Start (at 2024 1 1 0 0 0), End (at 2024 1 1 23 59 59)])"
proof -
  have "(106754::nat) = Suc 106753" by simp
  then show ?thesis by (simp only: longDay_def replicate_Suc concat.simps append_Cons append_Nil)
qed

lemma longDay_overflow:
  "wellFormed longDay \<and> oneDay longDay \<and> pairsOrdered longDay \<and>
   sint (fst (calcWorktime zeroTime longDay False)) = - 9223305227709551616"
proof -
  let ?s = "Start (at 2024 1 1 0 0 0)" and ?e = "End (at 2024 1 1 23 59 59)"
  have t: "Type ?s = ''s''" "Type ?e = ''e''" by (simp_all add: entry_defs)
  have a: "alternating longDay" unfolding longDay_def by (rule alternating_replicate[OF t])
  then have w: "wellFormed longDay" by (rule alternating_wellFormed)
  have "onDayOf (Timestamp ?s) [?s, ?e]"
    by (simp add: onDayOf_def entry_defs validTime_def isSameDay_def)
  then have "onDayOf (Timestamp ?s) longDay" unfolding longDay_def by (rule onDayOf_replicate)
  with longDay_unfold have o: "oneDay longDay" by (rule onDayOf_oneDay)
  have "unixNanos (Timestamp ?s) \<le> unixNanos (Timestamp ?e)"
    by (simp add: entry_defs unixNanos_def daysFromCivil_def)
  then have p: "pairsOrdered longDay" unfolding longDay_def by (rule pairsOrdered_replicate)
  have d: "Sub (Timestamp ?e) (Timestamp ?s) = 86399000000000"
    by (simp add: entry_defs time_defs)
  from cw_loop_alternating[OF a cw_init_idle]
  have "fst (calcWorktime zeroTime longDay False) = pairSum longDay"
    by (simp add: calcWorktime_def Let_def cw_init_def)
  also have "\<dots> = 106754 * 86399000000000"
    unfolding longDay_def pairSum_replicate d by simp
  finally have "sint (fst (calcWorktime zeroTime longDay False)) =
      sint (106754 * 86399000000000 :: duration)" by simp
  also have "\<dots> = - 9223305227709551616" by simp
  finally have v: "sint (fst (calcWorktime zeroTime longDay False)) = - 9223305227709551616" .
  from w o p v show ?thesis by blast
qed

text \<open>
  Claim C4, amended. For a well-formed sequence of events of one day the result is not
  negative: when the day ends with an unmatched Start and \<open>today\<close> is false (the result
  is zero); and in the other cases when no End is earlier than the Start it closes, the
  current time is not earlier than the open Start (with \<open>today\<close> true and a session
  open), and the pair differences, together with the time since the open Start, sum to a
  value that fits a Duration. The order of the sessions among themselves does not matter.
\<close>

theorem calcWorktime_nonneg_ordered_pairs:
  "wellFormed es \<and> oneDay es \<and>
   (case openStart es of
      None \<Rightarrow> pairsOrdered es \<and> pairNanos es < 9223372036854775808
    | Some s \<Rightarrow>
        today \<longrightarrow>
          pairsOrdered es \<and> unixNanos (Timestamp s) \<le> unixNanos now \<and>
          pairNanos es + (unixNanos now - unixNanos (Timestamp s)) < 9223372036854775808) \<longrightarrow>
   0 \<le> sint (fst (calcWorktime now es today))"
proof (intro impI)
  assume h: "wellFormed es \<and> oneDay es \<and>
   (case openStart es of
      None \<Rightarrow> pairsOrdered es \<and> pairNanos es < 9223372036854775808
    | Some s \<Rightarrow>
        today \<longrightarrow>
          pairsOrdered es \<and> unixNanos (Timestamp s) \<le> unixNanos now \<and>
          pairNanos es + (unixNanos now - unixNanos (Timestamp s)) < 9223372036854775808)"
  let ?st = "cw_loop cw_init es"
  from h have wf: "wellFormed es" by simp
  from cw_loop_wellFormed[OF wf cw_init_idle]
  have w: "worktime ?st = pairSum es"
    and c: "case openStart es of None \<Rightarrow> \<not> working ?st
            | Some s \<Rightarrow> working ?st \<and> lastTs ?st = Timestamp s"
    by (simp_all add: cw_init_def)
  show "0 \<le> sint (fst (calcWorktime now es today))"
  proof (cases "openStart es")
    case None
    with h have o: "pairsOrdered es" and f: "pairNanos es < 9223372036854775808" by simp_all
    from None c have "\<not> working ?st" by simp
    then have "fst (calcWorktime now es today) = word_of_int (pairNanos es)"
      by (simp add: calcWorktime_def Let_def w pairSum_exact[OF o f])
    moreover have "sint (word_of_int (pairNanos es) :: duration) = pairNanos es"
      using pairNanos_nonneg[OF o] f by (intro sint_word_of_int_exact) linarith+
    ultimately show ?thesis using pairNanos_nonneg[OF o] by simp
  next
    case (Some s)
    with c have k: "working ?st" "lastTs ?st = Timestamp s" by simp_all
    show ?thesis
    proof (cases today)
      case False
      with k show ?thesis by (simp add: calcWorktime_def Let_def)
    next
      case True
      let ?d = "unixNanos now - unixNanos (Timestamp s)"
      from h Some True have o: "pairsOrdered es" and n: "0 \<le> ?d"
        and f: "pairNanos es + ?d < 9223372036854775808"
        by simp_all
      note p = pairNanos_nonneg[OF o]
      from p n f have f': "pairNanos es < 9223372036854775808" by linarith
      have ps: "pairSum es = word_of_int (pairNanos es)" by (rule pairSum_exact[OF o f'])
      have sp: "sint (pairSum es) = pairNanos es"
        unfolding ps using p f' by (intro sint_word_of_int_exact) linarith+
      from p n f have "Sub now (Timestamp s) = word_of_int ?d"
        by (intro Sub_exact) linarith+
      with k True have r: "fst (calcWorktime now es today) = pairSum es + word_of_int ?d"
        by (simp add: calcWorktime_def Let_def w)
      have "sint (pairSum es + word_of_int ?d) = sint (pairSum es) + ?d"
        using p n f sp by (intro sint_add_exact) linarith+
      with r sp p n show ?thesis by simp
    qed
  qed
qed

lemma lateMorning_facts:
  "wellFormed lateMorning" "oneDay lateMorning" "openStart lateMorning = None"
  "pairsOrdered lateMorning" "pairNanos lateMorning = 25200000000000"
  by (simp_all add: lateMorning_def entry_defs oneDay_def onDayOf_def validTime_def isSameDay_def
      unixNanos_def daysFromCivil_def)

lemma openDay_facts:
  "wellFormed openDay" "oneDay openDay" "openStart openDay = Some (Start (at 2024 1 1 18 0 0))"
  "pairsOrdered openDay" "pairNanos openDay = 25200000000000"
  "unixNanos (at 2024 1 1 18 0 0) \<le> unixNanos (at 2024 1 1 18 30 0)"
  "unixNanos (at 2024 1 1 18 30 0) - unixNanos (at 2024 1 1 18 0 0) = 1800000000000"
  by (simp_all add: example_defs entry_defs oneDay_def onDayOf_def validTime_def isSameDay_def
      unixNanos_def daysFromCivil_def)

theorem calcWorktime_nonneg_ordered_pairs_witness:
  "wellFormed lateMorning \<and> oneDay lateMorning \<and> openStart lateMorning = None \<and>
   pairsOrdered lateMorning \<and> pairNanos lateMorning = 25200000000000 \<and>
   0 \<le> sint (fst (calcWorktime zeroTime lateMorning False)) \<and>
   0 \<le> sint (fst (calcWorktime zeroTime lateMorning True)) \<and>
   wellFormed openDay \<and> oneDay openDay \<and>
   openStart openDay = Some (Start (at 2024 1 1 18 0 0)) \<and> pairsOrdered openDay \<and>
   unixNanos (at 2024 1 1 18 0 0) \<le> unixNanos (at 2024 1 1 18 30 0) \<and>
   0 \<le> sint (fst (calcWorktime (at 2024 1 1 18 30 0) openDay True)) \<and>
   0 \<le> sint (fst (calcWorktime (at 2024 1 1 18 30 0) openDay False))"
proof -
  have a: "case openStart lateMorning of
      None \<Rightarrow> pairsOrdered lateMorning \<and> pairNanos lateMorning < 9223372036854775808
    | Some s \<Rightarrow> today \<longrightarrow> pairsOrdered lateMorning \<and>
        unixNanos (Timestamp s) \<le> unixNanos zeroTime \<and>
        pairNanos lateMorning + (unixNanos zeroTime - unixNanos (Timestamp s))
          < 9223372036854775808" for today
    by (simp add: lateMorning_facts)
  have b: "case openStart openDay of
      None \<Rightarrow> pairsOrdered openDay \<and> pairNanos openDay < 9223372036854775808
    | Some s \<Rightarrow> today \<longrightarrow> pairsOrdered openDay \<and>
        unixNanos (Timestamp s) \<le> unixNanos (at 2024 1 1 18 30 0) \<and>
        pairNanos openDay + (unixNanos (at 2024 1 1 18 30 0) - unixNanos (Timestamp s))
          < 9223372036854775808" for today
    by (simp add: openDay_facts Start_def)
  from calcWorktime_nonneg_ordered_pairs [where es = lateMorning and now = zeroTime
      and today = False] lateMorning_facts(1,2) a
  have 1: "0 \<le> sint (fst (calcWorktime zeroTime lateMorning False))" by blast
  from calcWorktime_nonneg_ordered_pairs [where es = lateMorning and now = zeroTime
      and today = True] lateMorning_facts(1,2) a
  have 2: "0 \<le> sint (fst (calcWorktime zeroTime lateMorning True))" by blast
  from calcWorktime_nonneg_ordered_pairs [where es = openDay
      and now = "at 2024 1 1 18 30 0" and today = True] openDay_facts(1,2) b
  have 3: "0 \<le> sint (fst (calcWorktime (at 2024 1 1 18 30 0) openDay True))" by blast
  from calcWorktime_nonneg_ordered_pairs [where es = openDay
      and now = "at 2024 1 1 18 30 0" and today = False] openDay_facts(1,2) b
  have 4: "0 \<le> sint (fst (calcWorktime (at 2024 1 1 18 30 0) openDay False))" by blast
  from lateMorning_facts openDay_facts(1-4,6) 1 2 3 4 show ?thesis by blast
qed

text \<open>The day entered out of order is within the amended claim, and gives seven hours.\<close>

lemma lateMorning_value: "calcWorktime now lateMorning today = (7 * Hour_d, [])"
  by (simp add: cw_defs lateMorning_def entry_defs time_defs Hour_d_def)

section \<open>Recording an entry\<close>

lemma saveTs_Inr: "saveTs w es = Inr saved \<Longrightarrow> saved = es"
  by (simp add: saveTs_def split: if_splits)

lemma saveTs_ok: "\<not> MarshalFails w \<Longrightarrow> \<not> WriteFails w \<Longrightarrow> saveTs w es = Inr es"
  by (simp add: saveTs_def)

lemma addStartEntry_Inr:
  "addStartEntry w entries = Inr saved \<Longrightarrow> \<exists>e. saved = entries @ [e] \<and> Type e = ''s''"
  by (auto simp: addStartEntry_def Let_def dest!: saveTs_Inr split: if_splits option.splits)

lemma addEndEntry_Inr:
  "addEndEntry w entries = Inr saved \<Longrightarrow> \<exists>e. saved = entries @ [e] \<and> Type e = ''e''"
  by (auto simp: addEndEntry_def Let_def dest!: saveTs_Inr split: if_splits option.splits)

text \<open>
  Claim C8. Whenever the start command or the end command persists a list, that list is the
  loaded list with one new event appended at the end, of kind \<open>"s"\<close> or \<open>"e"\<close>
  respectively: the loaded events are all there, unchanged and in their order. The command
  does persist such a list when the time argument is absent or parses and neither
  \<open>json.Marshal\<close> nor the write fails; otherwise \<open>check\<close> ends the run with status 1.
\<close>

theorem record_entry_appends:
  "(addStartEntry w entries = Inr saved \<longrightarrow> (\<exists>e. saved = entries @ [e] \<and> Type e = ''s'')) \<and>
   (addEndEntry w entries = Inr saved \<longrightarrow> (\<exists>e. saved = entries @ [e] \<and> Type e = ''e'')) \<and>
   ((length (Args w) \<le> 2 \<or> snd (Parse_clock (Args w ! 2)) = None) \<and>
      \<not> MarshalFails w \<and> \<not> WriteFails w \<longrightarrow>
    (\<exists>e. addStartEntry w entries = Inr (entries @ [e]) \<and> Type e = ''s'') \<and>
    (\<exists>e. addEndEntry w entries = Inr (entries @ [e]) \<and> Type e = ''e''))"
proof (intro conjI impI)
  assume "addStartEntry w entries = Inr saved"
  then show "\<exists>e. saved = entries @ [e] \<and> Type e = ''s''" by (rule addStartEntry_Inr)
next
  assume "addEndEntry w entries = Inr saved"
  then show "\<exists>e. saved = entries @ [e] \<and> Type e = ''e''" by (rule addEndEntry_Inr)
next
  assume h: "(length (Args w) \<le> 2 \<or> snd (Parse_clock (Args w ! 2)) = None) \<and>
      \<not> MarshalFails w \<and> \<not> WriteFails w"
  then show "\<exists>e. addStartEntry w entries = Inr (entries @ [e]) \<and> Type e = ''s''"
    by (auto simp: addStartEntry_def Let_def saveTs_ok)
  from h show "\<exists>e. addEndEntry w entries = Inr (entries @ [e]) \<and> Type e = ''e''"
    by (auto simp: addEndEntry_def Let_def saveTs_ok)
qed

lemmas parse_defs = Parse_clock_def getnum_def isDigit_def digitVal_def

lemma exampleWorld_start:
  "addStartEntry (exampleWorld ''s'') exampleDay = Inr (exampleDay @ [Start (at 2024 1 1 18 15 0)])"
  by (simp add: addStartEntry_def exampleWorld_def parse_defs saveTs_def DateUTC_def entry_defs)

lemma exampleWorld_end:
  "addEndEntry (exampleWorld ''e'') openDay = Inr (openDay @ [End (at 2024 1 1 18 15 0)])"
  by (simp add: addEndEntry_def exampleWorld_def parse_defs saveTs_def DateUTC_def entry_defs)

theorem record_entry_appends_witness:
  "addStartEntry (exampleWorld ''s'') exampleDay = Inr (exampleDay @ [Start (at 2024 1 1 18 15 0)]) \<and>
   addEndEntry (exampleWorld ''e'') openDay = Inr (openDay @ [End (at 2024 1 1 18 15 0)]) \<and>
   snd (Parse_clock (Args (exampleWorld ''s'') ! 2)) = None \<and>
   \<not> MarshalFails (exampleWorld ''s'') \<and> \<not> WriteFails (exampleWorld ''s'') \<and>
   (\<exists>e. exampleDay @ [Start (at 2024 1 1 18 15 0)] = exampleDay @ [e] \<and> Type e = ''s'') \<and>
   (\<exists>e. openDay @ [End (at 2024 1 1 18 15 0)] = openDay @ [e] \<and> Type e = ''e'') \<and>
   (\<exists>e. addStartEntry (exampleWorld ''s'') exampleDay = Inr (exampleDay @ [e]) \<and> Type e = ''s'')"
proof -
  have p: "snd (Parse_clock (Args (exampleWorld ''s'') ! 2)) = None"
    by (simp add: exampleWorld_def parse_defs)
  have m: "\<not> MarshalFails (exampleWorld ''s'')" "\<not> WriteFails (exampleWorld ''s'')"
    by (simp_all add: exampleWorld_def)
  note T = record_entry_appends [where w = "exampleWorld ''s''" and entries = exampleDay
      and saved = "exampleDay @ [Start (at 2024 1 1 18 15 0)]"]
  note U = record_entry_appends [where w = "exampleWorld ''e''" and entries = openDay
      and saved = "openDay @ [End (at 2024 1 1 18 15 0)]"]
  from T exampleWorld_start
  have 1: "\<exists>e. exampleDay @ [Start (at 2024 1 1 18 15 0)] = exampleDay @ [e] \<and> Type e = ''s''"
    by blast
  from U exampleWorld_end
  have 2: "\<exists>e. openDay @ [End (at 2024 1 1 18 15 0)] = openDay @ [e] \<and> Type e = ''e''"
    by blast
  from T p m
  have 3: "\<exists>e. addStartEntry (exampleWorld ''s'') exampleDay = Inr (exampleDay @ [e]) \<and> Type e = ''s''"
    by blast
  from exampleWorld_start exampleWorld_end p m 1 2 3 show ?thesis by blast
qed

section \<open>The day buckets\<close>

lemma dayOf_addToDay:
  "dayOf (addToDay m e) d = (if dateOf e = d then dayOf m d @ [e] else dayOf m d)"
  by (simp add: dayOf_def addToDay_def dateOf_def Let_def Mapping.lookup_update')

lemma keys_addToDay: "Mapping.keys (addToDay m e) = insert (dateOf e) (Mapping.keys m)"
  by (simp add: addToDay_def dateOf_def Let_def)

lemma dayOf_foldl:
  "dayOf (foldl addToDay m es) d = dayOf m d @ filter (\<lambda>e. dateOf e = d) es"
  by (induction es arbitrary: m) (simp_all add: dayOf_addToDay)

lemma keys_foldl: "Mapping.keys (foldl addToDay m es) = Mapping.keys m \<union> dateOf ` set es"
  by (induction es arbitrary: m) (auto simp: keys_addToDay)

lemma dayOf_empty: "dayOf Mapping.empty d = []"
  by (simp add: dayOf_def)

lemma dayOf_dayBuckets: "dayOf (dayBuckets es) d = filter (\<lambda>e. dateOf e = d) es"
  by (simp add: dayBuckets_def dayOf_foldl dayOf_empty)

lemma keys_dayBuckets: "Mapping.keys (dayBuckets es) = dateOf ` set es"
  by (simp add: dayBuckets_def keys_foldl)

lemma lookup_dayBuckets:
  "Mapping.lookup (dayBuckets es) d =
     (if d \<in> dateOf ` set es then Some (filter (\<lambda>e. dateOf e = d) es) else None)"
proof (cases "d \<in> dateOf ` set es")
  case True
  then have "d \<in> Mapping.keys (dayBuckets es)" by (simp add: keys_dayBuckets)
  then obtain v where v: "Mapping.lookup (dayBuckets es) d = Some v"
    by (auto simp: Mapping.keys_dom_lookup)
  then have "dayOf (dayBuckets es) d = v" by (simp add: dayOf_def)
  with v True show ?thesis by (simp add: dayOf_dayBuckets)
next
  case False
  then have "d \<notin> Mapping.keys (dayBuckets es)" by (simp add: keys_dayBuckets)
  then have "Mapping.lookup (dayBuckets es) d = None"
    by (auto simp: Mapping.keys_dom_lookup)
  with False show ?thesis by simp
qed

lemma sortedDays_dayBuckets:
  "set (sortedDays (dayBuckets es)) = dateOf ` set es \<and>
   sorted (sortedDays (dayBuckets es)) \<and> distinct (sortedDays (dayBuckets es))"
  by (simp add: sortedDays_def keys_dayBuckets)

lemma sortedDays_eq: "sortedDays (dayBuckets es) = sort (remdups (map dateOf es))"
proof -
  have "dateOf ` set es = set (map dateOf es)" by simp
  then show ?thesis
    by (simp only: sortedDays_def Mapping.ordered_keys_def keys_dayBuckets
        sorted_list_of_set_sort_remdups List.finite_set if_True)
qed

lemma mset_concat_filter_Cons:
  "distinct ds \<Longrightarrow>
     mset (concat (map (\<lambda>d. filter (\<lambda>x. f x = d) (a # xs)) ds)) =
     (if f a \<in> set ds then {#a#} else {#}) + mset (concat (map (\<lambda>d. filter (\<lambda>x. f x = d) xs) ds))"
  by (induction ds) auto

lemma mset_concat_filter:
  "distinct ds \<Longrightarrow> f ` set xs \<subseteq> set ds \<Longrightarrow>
     mset (concat (map (\<lambda>d. filter (\<lambda>x. f x = d) xs) ds)) = mset xs"
proof (induction xs)
  case Nil
  then show ?case by (induction ds) simp_all
next
  case (Cons a xs)
  then show ?case by (subst mset_concat_filter_Cons) auto
qed

lemma buckets_mset:
  "mset (concat (map (dayOf (dayBuckets es)) (sortedDays (dayBuckets es)))) = mset es"
proof -
  have "dayOf (dayBuckets es) = (\<lambda>d. filter (\<lambda>x. dateOf x = d) es)"
    by (rule ext) (rule dayOf_dayBuckets)
  moreover have "distinct (sortedDays (dayBuckets es))"
    and "dateOf ` set es \<subseteq> set (sortedDays (dayBuckets es))"
    using sortedDays_dayBuckets[of es] by simp_all
  ultimately show ?thesis by (simp only: mset_concat_filter)
qed

section \<open>Formatted dates in order\<close>

text \<open>
  For a year of four digits, the formatted date has the fixed form of ten characters, and
  the bytewise order of two such strings is the order of their calendar dates.
\<close>

lemma digitChar_code: "i < 10 \<Longrightarrow> (of_char (digitChar i) :: nat) = 48 + i"
proof -
  assume "i < 10"
  then have "i = 0 \<or> i = 1 \<or> i = 2 \<or> i = 3 \<or> i = 4 \<or> i = 5 \<or> i = 6 \<or> i = 7 \<or> i = 8 \<or> i = 9"
    by arith
  then show ?thesis
    by (elim disjE) (simp_all add: digitChar_def)
qed

lemma digitChar_less: "i < 10 \<Longrightarrow> j < 10 \<Longrightarrow> (digitChar i < digitChar j) = (i < j)"
proof -
  assume a: "i < 10" "j < 10"
  have "(digitChar i < digitChar j) = ((of_char (digitChar i) :: nat) < of_char (digitChar j))"
    by (rule less_char_def)
  also have "\<dots> = (i < j)" by (simp only: digitChar_code[OF a(1)] digitChar_code[OF a(2)]) simp
  finally show ?thesis .
qed

lemma digitChar_eq: "i < 10 \<Longrightarrow> j < 10 \<Longrightarrow> (digitChar i = digitChar j) = (i = j)"
proof -
  assume a: "i < 10" "j < 10"
  have "digitChar i = digitChar j \<Longrightarrow> i = j"
  proof -
    assume "digitChar i = digitChar j"
    then have "(of_char (digitChar i) :: nat) = of_char (digitChar j)" by (rule arg_cong)
    then have "48 + i = 48 + j" by (simp only: digitChar_code[OF a(1)] digitChar_code[OF a(2)])
    then show "i = j" by simp
  qed
  then show ?thesis by blast
qed

lemma length_fixedDigits: "length (fixedDigits k n) = k"
  by (induction k arbitrary: n) simp_all

lemma fixedDigits_zero: "fixedDigits k 0 = replicate k CHR ''0''"
  by (induction k) (simp_all add: digitChar_def replicate_append_same)

lemma decimal_small: "n < 10 \<Longrightarrow> decimal n = [digitChar n]"
  by (subst decimal.simps) simp

lemma decimal_large: "\<not> n < 10 \<Longrightarrow> decimal n = decimal (n div 10) @ [digitChar (n mod 10)]"
  by (subst decimal.simps) simp

lemma length_decimal_pos: "0 < length (decimal n)"
  by (cases "n < 10") (simp_all add: decimal_small decimal_large)

lemma length_decimal_le: "0 < k \<Longrightarrow> n < 10 ^ k \<Longrightarrow> length (decimal n) \<le> k"
proof (induction k arbitrary: n)
  case 0
  then show ?case by simp
next
  case (Suc k)
  show ?case
  proof (cases "n < 10")
    case True
    then show ?thesis by (simp add: decimal_small)
  next
    case False
    with Suc.prems have "0 < k" by (cases k) auto
    moreover from Suc.prems have "n div 10 < 10 ^ k" by (simp add: less_mult_imp_div_less mult.commute)
    ultimately have "length (decimal (n div 10)) \<le> k" by (rule Suc.IH)
    with False show ?thesis by (simp add: decimal_large)
  qed
qed

lemma pad_decimal:
  "0 < k \<Longrightarrow> n < 10 ^ k \<Longrightarrow>
     replicate (k - length (decimal n)) CHR ''0'' @ decimal n = fixedDigits k n"
proof (induction k arbitrary: n)
  case 0
  then show ?case by simp
next
  case (Suc k)
  show ?case
  proof (cases "n < 10")
    case True
    then show ?thesis by (simp add: decimal_small fixedDigits_zero)
  next
    case False
    with Suc.prems have k: "0 < k" by (cases k) auto
    from Suc.prems have d: "n div 10 < 10 ^ k" by (simp add: less_mult_imp_div_less mult.commute)
    from length_decimal_le[OF k d] have "Suc k - Suc (length (decimal (n div 10))) = k - length (decimal (n div 10))"
      by simp
    with Suc.IH[OF k d] False show ?thesis by (simp add: decimal_large)
  qed
qed

lemma appendInt_fixed:
  "0 < k \<Longrightarrow> 0 \<le> x \<Longrightarrow> x < 10 ^ k \<Longrightarrow> appendInt x k = fixedDigits k (nat x)"
proof -
  assume a: "0 < k" "0 \<le> x" "x < 10 ^ k"
  then have "nat x < 10 ^ k" by (simp add: nat_less_iff)
  from pad_decimal[OF a(1) this] a(2) show ?thesis by (simp add: appendInt_def Let_def)
qed

lemma append_less_same_length:
  fixes xs ys :: "'a::linorder list"
  shows "length xs = length ys \<Longrightarrow> (xs @ us < ys @ vs) = (xs < ys \<or> xs = ys \<and> us < vs)"
  by (induction xs ys rule: list_induct2) auto

lemma fixedDigits_inj:
  "m < 10 ^ k \<Longrightarrow> n < 10 ^ k \<Longrightarrow> (fixedDigits k m = fixedDigits k n) = (m = n)"
proof (induction k arbitrary: m n)
  case 0
  then show ?case by simp
next
  case (Suc k)
  from Suc.prems have d: "m div 10 < 10 ^ k" "n div 10 < 10 ^ k"
    by (simp_all add: less_mult_imp_div_less mult.commute)
  have "(m = n) = (m div 10 = n div 10 \<and> m mod 10 = n mod 10)"
    by (metis div_mult_mod_eq)
  with Suc.IH[OF d] show ?case by (simp add: digitChar_eq)
qed

lemma less_by_digits:
  "((m::nat) < n) = (m div 10 < n div 10 \<or> m div 10 = n div 10 \<and> m mod 10 < n mod 10)"
proof -
  define qm rm qn rn where "qm = m div 10" and "rm = m mod 10" and "qn = n div 10" and "rn = n mod 10"
  have m: "m = 10 * qm + rm" and n: "n = 10 * qn + rn" and r: "rm < 10" "rn < 10"
    by (simp_all add: qm_def rm_def qn_def rn_def)
  have "(10 * qm + rm < 10 * qn + rn) = (qm < qn \<or> qm = qn \<and> rm < rn)"
    using r by linarith
  then show ?thesis
    unfolding qm_def rm_def qn_def rn_def by simp
qed

lemma fixedDigits_less:
  "m < 10 ^ k \<Longrightarrow> n < 10 ^ k \<Longrightarrow> (fixedDigits k m < fixedDigits k n) = (m < n)"
proof (induction k arbitrary: m n)
  case 0
  then show ?case by simp
next
  case (Suc k)
  from Suc.prems have d: "m div 10 < 10 ^ k" "n div 10 < 10 ^ k"
    by (simp_all add: less_mult_imp_div_less mult.commute)
  have "(m < n) = (m div 10 < n div 10 \<or> m div 10 = n div 10 \<and> m mod 10 < n mod 10)"
    by (rule less_by_digits)
  with Suc.IH[OF d] fixedDigits_inj[OF d] show ?case
    by (simp add: append_less_same_length length_fixedDigits digitChar_less)
qed


lemma FormatDate_fixed:
  assumes "fourDigitYear t" "validTime t"
  shows "FormatDate t =
     fixedDigits 4 (nat (Year t)) @ ''-'' @ fixedDigits 2 (nat (Month t)) @ ''-'' @
     fixedDigits 2 (nat (Day t))"
proof -
  from assms have "appendInt (Year t) 4 = fixedDigits 4 (nat (Year t))"
    by (intro appendInt_fixed) (simp_all add: fourDigitYear_def)
  moreover from assms have "appendInt (Month t) 2 = fixedDigits 2 (nat (Month t))"
    by (intro appendInt_fixed) (simp_all add: validTime_def)
  moreover from assms have "appendInt (Day t) 2 = fixedDigits 2 (nat (Day t))"
    by (intro appendInt_fixed) (simp_all add: validTime_def)
  ultimately show ?thesis by (simp only: FormatDate_def)
qed

lemma FormatDate_less:
  assumes a: "fourDigitYear a" "validTime a" and b: "fourDigitYear b" "validTime b"
  shows "(FormatDate a < FormatDate b) = dateBefore a b"
proof -
  let ?ya = "nat (Year a)" and ?yb = "nat (Year b)"
  let ?ma = "nat (Month a)" and ?mb = "nat (Month b)"
  let ?da = "nat (Day a)" and ?db = "nat (Day b)"
  from a b have y: "?ya < 10 ^ 4" "?yb < 10 ^ 4" by (auto simp: fourDigitYear_def)
  from a b have m: "?ma < 10 ^ 2" "?mb < 10 ^ 2" by (auto simp: validTime_def)
  from a b have d: "?da < 10 ^ 2" "?db < 10 ^ 2" by (auto simp: validTime_def)
  have "(FormatDate a < FormatDate b) =
      (?ya < ?yb \<or> ?ya = ?yb \<and> (?ma < ?mb \<or> ?ma = ?mb \<and> ?da < ?db))"
    unfolding FormatDate_fixed[OF a] FormatDate_fixed[OF b]
    by (simp add: append_less_same_length length_fixedDigits
        fixedDigits_less[OF y] fixedDigits_inj[OF y] fixedDigits_less[OF m] fixedDigits_inj[OF m]
        fixedDigits_less[OF d] del: fixedDigits.simps)
  also have "\<dots> = dateBefore a b"
    using a b by (auto simp: dateBefore_def fourDigitYear_def validTime_def)
  finally show ?thesis .
qed

lemma sorted_distinct_nth_less:
  fixes xs :: "'a::linorder list"
  shows "sorted xs \<Longrightarrow> distinct xs \<Longrightarrow> i < j \<Longrightarrow> j < length xs \<Longrightarrow> xs ! i < xs ! j"
proof -
  assume a: "sorted xs" "distinct xs" "i < j" "j < length xs"
  then have "xs ! i \<le> xs ! j" by (simp add: sorted_nth_mono)
  moreover from a have "xs ! i \<noteq> xs ! j" by (simp add: nth_eq_iff_index_eq)
  ultimately show ?thesis by simp
qed

section \<open>The loop of the report\<close>

lemma report_step_eq:
  "report_step now (dayBuckets entries) st d =
     st\<lparr>out := out st @ dayReport now entries d,
        sum_acc := sum_acc st + dayWorktime now entries d,
        dayCount := dayCount st + (if dayWorktime now entries d = 0 then 0 else 1)\<rparr>"
  by (simp add: report_step_def dayReport_def dayWorktime_def Let_def)

lemma report_foldl:
  "foldl (report_step now (dayBuckets entries)) st ds =
     st\<lparr>out := out st @ concat (map (dayReport now entries) ds),
        sum_acc := sum_acc st + sum_list (map (dayWorktime now entries) (filter (\<lambda>d. dayWorktime now entries d \<noteq> 0) ds)),
        dayCount := dayCount st + length (filter (\<lambda>d. dayWorktime now entries d \<noteq> 0) ds)\<rparr>"
proof (induction ds arbitrary: st)
  case Nil
  show ?case by simp
next
  case (Cons d ds)
  let ?F = "report_step now (dayBuckets entries)"
  have "foldl ?F st (d # ds) = foldl ?F (?F st d) ds" by simp
  also have "\<dots> = (?F st d)\<lparr>out := out (?F st d) @ concat (map (dayReport now entries) ds),
        sum_acc := sum_acc (?F st d) + sum_list (map (dayWorktime now entries) (filter (\<lambda>d. dayWorktime now entries d \<noteq> 0) ds)),
        dayCount := dayCount (?F st d) + length (filter (\<lambda>d. dayWorktime now entries d \<noteq> 0) ds)\<rparr>"
    by (rule Cons.IH)
  also have "\<dots> = st\<lparr>out := out st @ concat (map (dayReport now entries) (d # ds)),
        sum_acc := sum_acc st + sum_list (map (dayWorktime now entries) (filter (\<lambda>d. dayWorktime now entries d \<noteq> 0) (d # ds))),
        dayCount := dayCount st + length (filter (\<lambda>d. dayWorktime now entries d \<noteq> 0) (d # ds))\<rparr>"
    by (simp add: report_step_eq add.assoc)
  finally show ?case .
qed

lemma report_loop_eq:
  "report_loop now entries =
     \<lparr>sum_acc = sum_list (map (dayWorktime now entries) (completeDays now entries)),
       dayCount = length (completeDays now entries),
       out = concat (map (dayReport now entries) (sortedDays (dayBuckets entries)))\<rparr>"
  by (simp add: report_loop_def Let_def report_foldl report_init_def completeDays_def)

lemma NoEndEntry_in_dayReport:
  "(NoEndEntry d \<in> set (dayReport now entries d')) = (d = d' \<and> dayWorktime now entries d = 0)"
  by (auto simp: dayReport_def)

lemma DayWorktime_in_dayReport:
  "(DayWorktime d x \<in> set (dayReport now entries d')) =
     (d = d' \<and> dayWorktime now entries d \<noteq> 0 \<and> x = Truncate (dayWorktime now entries d) Minute_d)"
  by (auto simp: dayReport_def)

lemma reportedDays_append: "reportedDays (xs @ ys) = reportedDays xs @ reportedDays ys"
  by (simp add: reportedDays_def)

lemma reportedDays_Text: "reportedDays (map Text xs) = []"
  by (induction xs) (simp_all add: reportedDays_def)

lemma reportedDays_dayReport: "reportedDays (dayReport now entries d) = [d]"
proof -
  have "reportedDays [if dayWorktime now entries d = 0 then NoEndEntry d
      else DayWorktime d (Truncate (dayWorktime now entries d) Minute_d)] = [d]"
    by (simp add: reportedDays_def)
  then show ?thesis
    by (simp only: dayReport_def reportedDays_append reportedDays_Text append_Nil)
qed

lemma reportedDays_concat:
  "reportedDays (concat (map (dayReport now entries) ds)) = ds"
  by (induction ds) (simp_all add: reportedDays_append reportedDays_dayReport, simp add: reportedDays_def)

section \<open>The example of two days\<close>

lemma twoDays_days: "sortedDays (dayBuckets twoDays) = [''2024-01-02'', ''2024-01-03'']"
  by code_simp

lemma twoDays_dates:
  "dateOf (Start (at 2024 1 3 9 0 0)) = ''2024-01-03''"
  "dateOf (Start (at 2024 1 2 9 0 0)) = ''2024-01-02''"
  "dateOf (End (at 2024 1 2 17 0 0)) = ''2024-01-02''"
  by code_simp+

lemma twoDays_valid:
  "list_all (\<lambda>e. fourDigitYear (Timestamp e) \<and> validTime (Timestamp e)) twoDays"
  by (simp add: twoDays_def entry_defs fourDigitYear_def validTime_def)

lemma twoDays_worktime:
  "calcWorktime now [Start (at 2024 1 2 9 0 0), End (at 2024 1 2 17 0 0)] False = (8 * Hour_d, [])"
  "calcWorktime now [Start (at 2024 1 3 9 0 0)] False = (0, [])"
  by (simp_all add: cw_defs entry_defs time_defs Hour_d_def)

section \<open>Bucketing by day\<close>

text \<open>
  Claim C7. The first loop of the report partitions the events by their formatted date:
  the keys are the dates that occur, the bucket of a date holds exactly the events of that
  date in their original relative order, and the buckets together hold every event once
  (no event lost or duplicated). The days are then processed in strictly ascending
  bytewise order of the date strings, which is the order of the day lines of the report;
  for valid times with four-digit years, as every stored timestamp has, that order is the
  chronological order of the calendar dates.
\<close>

theorem dayBuckets_partition:
  "Mapping.keys (dayBuckets entries) = dateOf ` set entries \<and>
   (\<forall>d. dayOf (dayBuckets entries) d = filter (\<lambda>e. dateOf e = d) entries) \<and>
   (\<forall>d. Mapping.lookup (dayBuckets entries) d =
      (if d \<in> dateOf ` set entries then Some (filter (\<lambda>e. dateOf e = d) entries) else None)) \<and>
   mset (concat (map (dayOf (dayBuckets entries)) (sortedDays (dayBuckets entries)))) =
     mset entries \<and>
   set (sortedDays (dayBuckets entries)) = dateOf ` set entries \<and>
   sorted_wrt (<) (sortedDays (dayBuckets entries)) \<and>
   reportedDays (calcWorktimeAll now entries) = sortedDays (dayBuckets entries) \<and>
   ((\<forall>e\<in>set entries. fourDigitYear (Timestamp e) \<and> validTime (Timestamp e)) \<longrightarrow>
    (\<forall>i j a b. i < j \<and> j < length (sortedDays (dayBuckets entries)) \<and>
       a \<in> set (dayOf (dayBuckets entries) (sortedDays (dayBuckets entries) ! i)) \<and>
       b \<in> set (dayOf (dayBuckets entries) (sortedDays (dayBuckets entries) ! j)) \<longrightarrow>
       dateBefore (Timestamp a) (Timestamp b)))"
proof -
  let ?m = "dayBuckets entries"
  let ?days = "sortedDays ?m"
  note sd = sortedDays_dayBuckets[of entries]
  have k: "Mapping.keys ?m = dateOf ` set entries" by (rule keys_dayBuckets)
  have f: "\<forall>d. dayOf ?m d = filter (\<lambda>e. dateOf e = d) entries"
    by (simp add: dayOf_dayBuckets)
  have l: "\<forall>d. Mapping.lookup ?m d =
      (if d \<in> dateOf ` set entries then Some (filter (\<lambda>e. dateOf e = d) entries) else None)"
    by (simp only: lookup_dayBuckets) simp
  have p: "mset (concat (map (dayOf ?m) ?days)) = mset entries" by (rule buckets_mset)
  from sd have s: "set ?days = dateOf ` set entries" by simp
  from sd have o: "sorted_wrt (<) ?days" by (simp add: strict_sorted_iff)
  have r: "reportedDays (calcWorktimeAll now entries) = ?days"
    by (simp add: calcWorktimeAll_def Let_def report_loop_eq reportedDays_append reportedDays_concat)
      (simp add: reportedDays_def)
  have c: "(\<forall>e\<in>set entries. fourDigitYear (Timestamp e) \<and> validTime (Timestamp e)) \<longrightarrow>
    (\<forall>i j a b. i < j \<and> j < length ?days \<and> a \<in> set (dayOf ?m (?days ! i)) \<and>
       b \<in> set (dayOf ?m (?days ! j)) \<longrightarrow> dateBefore (Timestamp a) (Timestamp b))"
  proof (intro impI allI)
    fix i j a b
    assume v: "\<forall>e\<in>set entries. fourDigitYear (Timestamp e) \<and> validTime (Timestamp e)"
    assume h: "i < j \<and> j < length ?days \<and> a \<in> set (dayOf ?m (?days ! i)) \<and>
       b \<in> set (dayOf ?m (?days ! j))"
    then have a: "a \<in> set entries" "dateOf a = ?days ! i"
      and b: "b \<in> set entries" "dateOf b = ?days ! j"
      by (simp_all add: dayOf_dayBuckets)
    from sd h have "?days ! i < ?days ! j" by (intro sorted_distinct_nth_less) simp_all
    with a b have "FormatDate (Timestamp a) < FormatDate (Timestamp b)" by (simp add: dateOf_def)
    moreover from v a b have "fourDigitYear (Timestamp a)" "validTime (Timestamp a)"
      "fourDigitYear (Timestamp b)" "validTime (Timestamp b)" by simp_all
    ultimately show "dateBefore (Timestamp a) (Timestamp b)" by (simp add: FormatDate_less)
  qed
  from k f l p s o r c show ?thesis by blast
qed

theorem dayBuckets_partition_witness:
  "list_all (\<lambda>e. fourDigitYear (Timestamp e) \<and> validTime (Timestamp e)) twoDays \<and>
   sortedDays (dayBuckets twoDays) = [''2024-01-02'', ''2024-01-03''] \<and>
   dayOf (dayBuckets twoDays) ''2024-01-02'' =
     [Start (at 2024 1 2 9 0 0), End (at 2024 1 2 17 0 0)] \<and>
   dayOf (dayBuckets twoDays) ''2024-01-03'' = [Start (at 2024 1 3 9 0 0)] \<and>
   reportedDays (calcWorktimeAll zeroTime twoDays) = [''2024-01-02'', ''2024-01-03''] \<and>
   dateBefore (at 2024 1 2 17 0 0) (at 2024 1 3 9 0 0)"
proof -
  note T = dayBuckets_partition [where entries = twoDays and now = zeroTime]
  let ?m = "dayBuckets twoDays"
  from T have f: "\<And>d. dayOf ?m d = filter (\<lambda>e. dateOf e = d) twoDays" by blast
  have b2: "dayOf ?m ''2024-01-02'' = [Start (at 2024 1 2 9 0 0), End (at 2024 1 2 17 0 0)]"
    by (simp only: f) (simp add: twoDays_def twoDays_dates)
  have b3: "dayOf ?m ''2024-01-03'' = [Start (at 2024 1 3 9 0 0)]"
    by (simp only: f) (simp add: twoDays_def twoDays_dates)
  from T have "reportedDays (calcWorktimeAll zeroTime twoDays) = sortedDays ?m" by blast
  then have r: "reportedDays (calcWorktimeAll zeroTime twoDays) = [''2024-01-02'', ''2024-01-03'']"
    by (simp only: twoDays_days)
  from twoDays_valid
  have v: "\<forall>e\<in>set twoDays. fourDigitYear (Timestamp e) \<and> validTime (Timestamp e)"
    by (simp only: list_all_iff)
  have i: "(0::nat) < 1 \<and> 1 < length (sortedDays ?m) \<and>
      End (at 2024 1 2 17 0 0) \<in> set (dayOf ?m (sortedDays ?m ! 0)) \<and>
      Start (at 2024 1 3 9 0 0) \<in> set (dayOf ?m (sortedDays ?m ! 1))"
    by (simp add: twoDays_days b2 b3)
  from T v have "\<forall>i j a b. i < j \<and> j < length (sortedDays ?m) \<and>
       a \<in> set (dayOf ?m (sortedDays ?m ! i)) \<and> b \<in> set (dayOf ?m (sortedDays ?m ! j)) \<longrightarrow>
       dateBefore (Timestamp a) (Timestamp b)"
    by blast
  with i have "dateBefore (Timestamp (End (at 2024 1 2 17 0 0))) (Timestamp (Start (at 2024 1 3 9 0 0)))"
    by blast
  then have d: "dateBefore (at 2024 1 2 17 0 0) (at 2024 1 3 9 0 0)"
    by (simp add: Start_def End_def)
  from twoDays_valid twoDays_days b2 b3 r d show ?thesis by blast
qed

section \<open>The report over all days\<close>

lemma secondsDay_days: "sortedDays (dayBuckets secondsDay) = [''2024-01-01'']"
  by code_simp

lemma secondsDay_bucket: "dayOf (dayBuckets secondsDay) ''2024-01-01'' = secondsDay"
  by code_simp

lemma secondsDay_worktime: "calcWorktime now secondsDay False = (27030000000000, [])"
  by (simp add: cw_defs secondsDay_def entry_defs time_defs)

lemma Truncate_eval:
  "Truncate 27030000000000 Minute_d = 27000000000000"
  "Truncate 28800000000000 Minute_d = 28800000000000"
  "Truncate (- 1770000000000) Minute_d = - 1740000000000"
  by (simp_all add: Truncate_def Minute_d_def signed_modulo_int_def)

lemma secondsDay_loop:
  "report_loop now secondsDay =
     \<lparr>sum_acc = 27030000000000, dayCount = 1,
       out = [DayWorktime ''2024-01-01'' 27000000000000]\<rparr>"
  by (simp add: report_loop_def Let_def secondsDay_days report_step_def secondsDay_bucket
      secondsDay_worktime report_init_def Truncate_eval)

text \<open>
  Claim C3, as the code has it. The report prints its three totals truncated to whole
  minutes; the difference it prints is therefore not the actual total minus the expected
  total whenever that difference has a part below a minute. For one day worked from
  09:00:00 to 16:30:30 the actual total is 7h30m30s, the expected total 8h, their
  difference -29m30s; the report prints 7h30m, 8h and -29m.
\<close>

theorem calcWorktimeAll_diff_truncated:
  "calcWorktimeAll zeroTime secondsDay =
     [DayWorktime ''2024-01-01'' 27000000000000,
      Summary 28800000000000 27000000000000 (- 1740000000000)] \<and>
   sum_acc (report_loop zeroTime secondsDay) = 27030000000000 \<and>
   expectedTotal (report_loop zeroTime secondsDay) = 28800000000000 \<and>
   sum_acc (report_loop zeroTime secondsDay) - expectedTotal (report_loop zeroTime secondsDay) =
     - 1770000000000 \<and>
   (- 1740000000000 :: duration) \<noteq> - 1770000000000 \<and>
   (- 1740000000000 :: duration) \<noteq> 27000000000000 - 28800000000000"
  by (simp add: calcWorktimeAll_def Let_def secondsDay_loop expectedTotal_def Hour_d_def Truncate_eval)

text \<open>
  Claim C3, amended. For every day bucket, in the order of the days: the report writes
  "No end entry" for the day, and leaves it out of the running total and of the count of
  complete days, exactly when \<open>calcWorktime\<close> of the bucket with the flag false is zero;
  otherwise it writes the duration truncated to minutes, adds the duration to the total and
  increments the count. The expected total is 8 hours times the count of complete days, and
  the summary prints the expected total, the actual total and the actual total minus the
  expected total, each truncated toward zero to whole minutes.
\<close>

theorem calcWorktimeAll_report:
  "out (report_loop now entries) =
     concat (map (dayReport now entries) (sortedDays (dayBuckets entries))) \<and>
   (\<forall>d. (NoEndEntry d \<in> set (calcWorktimeAll now entries)) =
      (d \<in> set (sortedDays (dayBuckets entries)) \<and> dayWorktime now entries d = 0)) \<and>
   (\<forall>d x. (DayWorktime d x \<in> set (calcWorktimeAll now entries)) =
      (d \<in> set (sortedDays (dayBuckets entries)) \<and> dayWorktime now entries d \<noteq> 0 \<and>
       x = Truncate (dayWorktime now entries d) Minute_d)) \<and>
   sum_acc (report_loop now entries) =
     sum_list (map (dayWorktime now entries) (completeDays now entries)) \<and>
   dayCount (report_loop now entries) = length (completeDays now entries) \<and>
   expectedTotal (report_loop now entries) =
     8 * Hour_d * of_nat (length (completeDays now entries)) \<and>
   calcWorktimeAll now entries =
     out (report_loop now entries) @
     [Summary (Truncate (expectedTotal (report_loop now entries)) Minute_d)
        (Truncate (sum_acc (report_loop now entries)) Minute_d)
        (Truncate (sum_acc (report_loop now entries) - expectedTotal (report_loop now entries))
           Minute_d)]"
proof -
  let ?st = "report_loop now entries"
  let ?days = "sortedDays (dayBuckets entries)"
  have o: "out ?st = concat (map (dayReport now entries) ?days)"
    and s: "sum_acc ?st = sum_list (map (dayWorktime now entries) (completeDays now entries))"
    and c: "dayCount ?st = length (completeDays now entries)"
    by (simp_all add: report_loop_eq)
  have e: "expectedTotal ?st = 8 * Hour_d * of_nat (length (completeDays now entries))"
    by (simp add: expectedTotal_def c mult.commute)
  have a: "calcWorktimeAll now entries =
     out ?st @ [Summary (Truncate (expectedTotal ?st) Minute_d) (Truncate (sum_acc ?st) Minute_d)
        (Truncate (sum_acc ?st - expectedTotal ?st) Minute_d)]"
    by (simp add: calcWorktimeAll_def Let_def)
  have n: "\<forall>d. (NoEndEntry d \<in> set (calcWorktimeAll now entries)) =
      (d \<in> set ?days \<and> dayWorktime now entries d = 0)"
    unfolding a o by (auto simp: NoEndEntry_in_dayReport)
  have w: "\<forall>d x. (DayWorktime d x \<in> set (calcWorktimeAll now entries)) =
      (d \<in> set ?days \<and> dayWorktime now entries d \<noteq> 0 \<and>
       x = Truncate (dayWorktime now entries d) Minute_d)"
    unfolding a o by (auto simp: DayWorktime_in_dayReport)
  from o n w s c e a show ?thesis by blast
qed

theorem calcWorktimeAll_report_witness:
  "NoEndEntry ''2024-01-03'' \<in> set (calcWorktimeAll zeroTime twoDays) \<and>
   DayWorktime ''2024-01-02'' (8 * Hour_d) \<in> set (calcWorktimeAll zeroTime twoDays) \<and>
   completeDays zeroTime twoDays = [''2024-01-02''] \<and>
   sum_acc (report_loop zeroTime twoDays) = 8 * Hour_d \<and>
   dayCount (report_loop zeroTime twoDays) = 1 \<and>
   expectedTotal (report_loop zeroTime twoDays) = 8 * Hour_d \<and>
   calcWorktimeAll zeroTime twoDays =
     [DayWorktime ''2024-01-02'' (8 * Hour_d), NoEndEntry ''2024-01-03'',
      Summary (8 * Hour_d) (8 * Hour_d) 0]"
proof -
  note T = calcWorktimeAll_report [where entries = twoDays and now = zeroTime]
  let ?m = "dayBuckets twoDays"
  have b2: "dayOf ?m ''2024-01-02'' = [Start (at 2024 1 2 9 0 0), End (at 2024 1 2 17 0 0)]"
    by (simp add: dayOf_dayBuckets twoDays_def twoDays_dates)
  have b3: "dayOf ?m ''2024-01-03'' = [Start (at 2024 1 3 9 0 0)]"
    by (simp add: dayOf_dayBuckets twoDays_def twoDays_dates)
  have w2: "dayWorktime zeroTime twoDays ''2024-01-02'' = 8 * Hour_d"
    by (simp add: dayWorktime_def b2 twoDays_worktime)
  have w3: "dayWorktime zeroTime twoDays ''2024-01-03'' = 0"
    by (simp add: dayWorktime_def b3 twoDays_worktime)
  have nz: "8 * Hour_d \<noteq> (0::duration)" by (simp add: Hour_d_def)
  have tr: "Truncate (8 * Hour_d) Minute_d = 8 * Hour_d" "Truncate 0 Minute_d = 0"
    by (simp_all add: Truncate_def Minute_d_def Hour_d_def signed_modulo_int_def)
  have cd: "completeDays zeroTime twoDays = [''2024-01-02'']"
    by (simp add: completeDays_def twoDays_days w2 w3 nz)
  from T have "(NoEndEntry ''2024-01-03'' \<in> set (calcWorktimeAll zeroTime twoDays)) =
      (''2024-01-03'' \<in> set (sortedDays ?m) \<and> dayWorktime zeroTime twoDays ''2024-01-03'' = 0)"
    by blast
  then have 1: "NoEndEntry ''2024-01-03'' \<in> set (calcWorktimeAll zeroTime twoDays)"
    by (simp add: twoDays_days w3)
  from T have "(DayWorktime ''2024-01-02'' (8 * Hour_d) \<in> set (calcWorktimeAll zeroTime twoDays)) =
      (''2024-01-02'' \<in> set (sortedDays ?m) \<and> dayWorktime zeroTime twoDays ''2024-01-02'' \<noteq> 0 \<and>
       8 * Hour_d = Truncate (dayWorktime zeroTime twoDays ''2024-01-02'') Minute_d)"
    by blast
  then have 2: "DayWorktime ''2024-01-02'' (8 * Hour_d) \<in> set (calcWorktimeAll zeroTime twoDays)"
    by (simp add: twoDays_days w2 nz tr)
  from T have "sum_acc (report_loop zeroTime twoDays) =
      sum_list (map (dayWorktime zeroTime twoDays) (completeDays zeroTime twoDays))" by blast
  then have 3: "sum_acc (report_loop zeroTime twoDays) = 8 * Hour_d" by (simp add: cd w2)
  from T have "dayCount (report_loop zeroTime twoDays) = length (completeDays zeroTime twoDays)"
    by blast
  then have 4: "dayCount (report_loop zeroTime twoDays) = 1" by (simp add: cd)
  from T have "expectedTotal (report_loop zeroTime twoDays) =
      8 * Hour_d * of_nat (length (completeDays zeroTime twoDays))" by blast
  then have 5: "expectedTotal (report_loop zeroTime twoDays) = 8 * Hour_d" by (simp add: cd)
  from T have o: "out (report_loop zeroTime twoDays) =
      concat (map (dayReport zeroTime twoDays) (sortedDays ?m))" by blast
  from T have "calcWorktimeAll zeroTime twoDays =
     out (report_loop zeroTime twoDays) @
     [Summary (Truncate (expectedTotal (report_loop zeroTime twoDays)) Minute_d)
        (Truncate (sum_acc (report_loop zeroTime twoDays)) Minute_d)
        (Truncate (sum_acc (report_loop zeroTime twoDays) - expectedTotal (report_loop zeroTime twoDays))
           Minute_d)]" by blast
  then have 6: "calcWorktimeAll zeroTime twoDays =
     [DayWorktime ''2024-01-02'' (8 * Hour_d), NoEndEntry ''2024-01-03'',
      Summary (8 * Hour_d) (8 * Hour_d) 0]"
    by (simp add: o 3 5 twoDays_days dayReport_def w2 w3 nz tr b2 b3 twoDays_worktime)
  from 1 2 cd 3 4 5 6 show ?thesis by blast
qed

end
